theory Spec2Isabelle
  imports Main "HOL-Library.Monad_Syntax"
begin

section \<open>Strings\<close>

text \<open>
  A JavaScript string is a sequence of UTF-16 code units. The notice pushed for a tool
  error starts with code units above 255, so strings are lists of code units (natural
  numbers below 65536) and not Isabelle characters. \<open>js\<close> embeds an ASCII literal.
\<close>

type_synonym code_unit = nat
type_synonym jsstring = "code_unit list"

definition js :: "string \<Rightarrow> jsstring" where
  "js s = map of_char s"

text \<open>
  \<^verbatim>\<open>String.prototype.trim\<close> removes WhiteSpace and LineTerminator code units from both
  ends: TAB, LF, VT, FF, CR, SP, NBSP, the other space separators (U+1680, U+2000 to
  U+200A, U+202F, U+205F, U+3000), LS, PS and U+FEFF.
\<close>

definition is_js_whitespace :: "code_unit \<Rightarrow> bool" where
  "is_js_whitespace c \<longleftrightarrow>
     c = 9 \<or> c = 10 \<or> c = 11 \<or> c = 12 \<or> c = 13 \<or> c = 32 \<or> c = 160 \<or> c = 5760 \<or>
     (8192 \<le> c \<and> c \<le> 8202) \<or> c = 8232 \<or> c = 8233 \<or> c = 8239 \<or> c = 8287 \<or>
     c = 12288 \<or> c = 65279"

definition trim :: "jsstring \<Rightarrow> jsstring" where
  "trim s = rev (dropWhile is_js_whitespace (rev (dropWhile is_js_whitespace s)))"

definition startsWith :: "jsstring \<Rightarrow> jsstring \<Rightarrow> bool" where
  "startsWith s p \<longleftrightarrow> take (length p) s = p"

text \<open>\<^verbatim>\<open>s.split("\n")\<close>: the pieces between line feeds; never empty (\<^verbatim>\<open>"".split("\n")\<close> is \<^verbatim>\<open>[""]\<close>).\<close>

fun split_nl :: "jsstring \<Rightarrow> jsstring list" where
  "split_nl [] = [[]]"
| "split_nl (c # cs) =
     (if c = 10 then [] # split_nl cs
      else (case split_nl cs of [] \<Rightarrow> [[c]] | l # ls \<Rightarrow> (c # l) # ls))"

section \<open>JSON values and \<^verbatim>\<open>JSON.parse\<close>\<close>

text \<open>
  A parsed JSON value. A number is kept as its decimal value \<open>m * 10 ^ e\<close>; an object
  keeps its members in source order, and a property read takes the last member with
  the key, as the object built by \<^verbatim>\<open>JSON.parse\<close> does.
\<close>

datatype json =
    JNull
  | JBool bool
  | JNumber int int
  | JString jsstring
  | JArray "json list"
  | JObject "(jsstring \<times> json) list"

datatype token =
    TLBrace | TRBrace | TLBracket | TRBracket | TColon | TComma
  | TString jsstring | TNumber int int | TTrue | TFalse | TNull

definition is_digit :: "code_unit \<Rightarrow> bool" where
  "is_digit c \<longleftrightarrow> 48 \<le> c \<and> c \<le> 57"

definition digits_value :: "jsstring \<Rightarrow> nat" where
  "digits_value ds = foldl (\<lambda>a c. 10 * a + (c - 48)) 0 ds"

definition hex_value :: "code_unit \<Rightarrow> nat option" where
  "hex_value c =
     (if 48 \<le> c \<and> c \<le> 57 then Some (c - 48)
      else if 97 \<le> c \<and> c \<le> 102 then Some (c - 87)
      else if 65 \<le> c \<and> c \<le> 70 then Some (c - 55)
      else None)"

text \<open>The JSON number grammar on a whole lexeme: \<^verbatim>\<open>-?(0|[1-9][0-9]*)(\.[0-9]+)?([eE][+-]?[0-9]+)?\<close>.\<close>

definition number_of :: "jsstring \<Rightarrow> (int \<times> int) option" where
  "number_of w =
     (let neg = (take 1 w = [45]);
          s1 = (if neg then drop 1 w else w);
          ip = takeWhile is_digit s1;
          s2 = dropWhile is_digit s1;
          has_frac = (take 1 s2 = [46]);
          fp = (if has_frac then takeWhile is_digit (drop 1 s2) else []);
          s3 = (if has_frac then dropWhile is_digit (drop 1 s2) else s2);
          has_exp = (take 1 s3 = [101] \<or> take 1 s3 = [69]);
          s4 = drop 1 s3;
          eneg = (take 1 s4 = [45]);
          s5 = (if take 1 s4 = [45] \<or> take 1 s4 = [43] then drop 1 s4 else s4);
          m = (if neg then - int (digits_value (ip @ fp)) else int (digits_value (ip @ fp)))
      in if ip = [] \<or> (1 < length ip \<and> take 1 ip = [48]) then None
         else if has_frac \<and> fp = [] then None
         else if has_exp then
           (if s5 = [] \<or> \<not> list_all is_digit s5 then None
            else Some (m, (if eneg then - int (digits_value s5) else int (digits_value s5))
                          - int (length fp)))
         else if s3 \<noteq> [] then None
         else Some (m, - int (length fp)))"

text \<open>
  The lexer reads one code unit at a time. A bare word (a number or one of the literals
  \<^verbatim>\<open>true\<close>, \<^verbatim>\<open>false\<close>, \<^verbatim>\<open>null\<close>) is collected up to the next code unit that cannot
  belong to one and is then checked as a whole; two values never stand next to each
  other in JSON, so the longest word is the only candidate.
\<close>

datatype lex_mode =
    Idle
  | InString jsstring
  | InEscape jsstring
  | InUnicode jsstring "nat list"
  | InWord jsstring

definition is_json_whitespace :: "code_unit \<Rightarrow> bool" where
  "is_json_whitespace c \<longleftrightarrow> c = 32 \<or> c = 9 \<or> c = 10 \<or> c = 13"

definition is_word_unit :: "code_unit \<Rightarrow> bool" where
  "is_word_unit c \<longleftrightarrow>
     is_digit c \<or> (97 \<le> c \<and> c \<le> 122) \<or> (65 \<le> c \<and> c \<le> 90) \<or> c = 43 \<or> c = 45 \<or> c = 46"

definition word_token :: "jsstring \<Rightarrow> token option" where
  "word_token w =
     (if w = js ''true'' then Some TTrue
      else if w = js ''false'' then Some TFalse
      else if w = js ''null'' then Some TNull
      else (case number_of w of None \<Rightarrow> None | Some (m, e) \<Rightarrow> Some (TNumber m e)))"

definition unescape :: "code_unit \<Rightarrow> code_unit option" where
  "unescape c =
     (if c = 34 then Some 34
      else if c = 92 then Some 92
      else if c = 47 then Some 47
      else if c = 98 then Some 8
      else if c = 102 then Some 12
      else if c = 110 then Some 10
      else if c = 114 then Some 13
      else if c = 116 then Some 9
      else None)"

definition lex_idle :: "code_unit \<Rightarrow> (token list \<times> lex_mode) option" where
  "lex_idle c =
     (if is_json_whitespace c then Some ([], Idle)
      else if c = 123 then Some ([TLBrace], Idle)
      else if c = 125 then Some ([TRBrace], Idle)
      else if c = 91 then Some ([TLBracket], Idle)
      else if c = 93 then Some ([TRBracket], Idle)
      else if c = 58 then Some ([TColon], Idle)
      else if c = 44 then Some ([TComma], Idle)
      else if c = 34 then Some ([], InString [])
      else if is_word_unit c then Some ([], InWord [c])
      else None)"

fun lex_step :: "lex_mode \<Rightarrow> code_unit \<Rightarrow> (token list \<times> lex_mode) option" where
  "lex_step Idle c = lex_idle c"
| "lex_step (InString s) c =
     (if c = 34 then Some ([TString s], Idle)
      else if c = 92 then Some ([], InEscape s)
      else if c < 32 then None
      else Some ([], InString (s @ [c])))"
| "lex_step (InEscape s) c =
     (if c = 117 then Some ([], InUnicode s [])
      else (case unescape c of None \<Rightarrow> None | Some u \<Rightarrow> Some ([], InString (s @ [u]))))"
| "lex_step (InUnicode s hs) c =
     (case hex_value c of
        None \<Rightarrow> None
      | Some h \<Rightarrow>
          if length hs = 3 then Some ([], InString (s @ [foldl (\<lambda>a d. 16 * a + d) 0 (hs @ [h])]))
          else Some ([], InUnicode s (hs @ [h])))"
| "lex_step (InWord w) c =
     (if is_word_unit c then Some ([], InWord (w @ [c]))
      else (case word_token w of
              None \<Rightarrow> None
            | Some t \<Rightarrow> (case lex_idle c of None \<Rightarrow> None | Some (ts, m) \<Rightarrow> Some (t # ts, m))))"

fun lex_end :: "lex_mode \<Rightarrow> token list option" where
  "lex_end Idle = Some []"
| "lex_end (InWord w) = (case word_token w of None \<Rightarrow> None | Some t \<Rightarrow> Some [t])"
| "lex_end _ = None"

fun lex_run :: "lex_mode \<Rightarrow> jsstring \<Rightarrow> token list option" where
  "lex_run m [] = lex_end m"
| "lex_run m (c # cs) =
     (case lex_step m c of
        None \<Rightarrow> None
      | Some (ts, m') \<Rightarrow> (case lex_run m' cs of None \<Rightarrow> None | Some ts' \<Rightarrow> Some (ts @ ts')))"

text \<open>
  The parser keeps the open containers on a stack: an array with its elements so far, an
  object with its members so far and the key whose value is awaited.
\<close>

datatype frame =
    FArray "json list"
  | FObject "(jsstring \<times> json) list" "jsstring option"

datatype parse_state =
    PValue        \<comment> \<open>a value must follow\<close>
  | PArrayStart   \<comment> \<open>after \<^verbatim>\<open>[\<close>: a value or \<^verbatim>\<open>]\<close>\<close>
  | PObjectStart  \<comment> \<open>after \<^verbatim>\<open>{\<close>: a key or \<^verbatim>\<open>}\<close>\<close>
  | PKey          \<comment> \<open>after a comma in an object: a key\<close>
  | PColon        \<comment> \<open>after a key: the colon\<close>
  | PAfter        \<comment> \<open>after a value in a container: a comma or the closing bracket\<close>
  | PDone json    \<comment> \<open>the value is complete\<close>

fun push_value :: "json \<Rightarrow> frame list \<Rightarrow> (parse_state \<times> frame list) option" where
  "push_value v [] = Some (PDone v, [])"
| "push_value v (FArray vs # st) = Some (PAfter, FArray (vs @ [v]) # st)"
| "push_value v (FObject kvs (Some k) # st) = Some (PAfter, FObject (kvs @ [(k, v)]) None # st)"
| "push_value v (FObject kvs None # st) = None"

fun scalar_of :: "token \<Rightarrow> json option" where
  "scalar_of (TString s) = Some (JString s)"
| "scalar_of (TNumber m e) = Some (JNumber m e)"
| "scalar_of TTrue = Some (JBool True)"
| "scalar_of TFalse = Some (JBool False)"
| "scalar_of TNull = Some JNull"
| "scalar_of _ = None"

definition start_value :: "token \<Rightarrow> frame list \<Rightarrow> (parse_state \<times> frame list) option" where
  "start_value t st =
     (if t = TLBracket then Some (PArrayStart, FArray [] # st)
      else if t = TLBrace then Some (PObjectStart, FObject [] None # st)
      else (case scalar_of t of None \<Rightarrow> None | Some v \<Rightarrow> push_value v st))"

definition close_array :: "frame list \<Rightarrow> (parse_state \<times> frame list) option" where
  "close_array st = (case st of FArray vs # st' \<Rightarrow> push_value (JArray vs) st' | _ \<Rightarrow> None)"

definition close_object :: "frame list \<Rightarrow> (parse_state \<times> frame list) option" where
  "close_object st =
     (case st of FObject kvs None # st' \<Rightarrow> push_value (JObject kvs) st' | _ \<Rightarrow> None)"

definition read_key :: "token \<Rightarrow> frame list \<Rightarrow> (parse_state \<times> frame list) option" where
  "read_key t st =
     (case (t, st) of
        (TString k, FObject kvs None # st') \<Rightarrow> Some (PColon, FObject kvs (Some k) # st')
      | _ \<Rightarrow> None)"

fun parse_step :: "parse_state \<Rightarrow> frame list \<Rightarrow> token \<Rightarrow> (parse_state \<times> frame list) option" where
  "parse_step PValue st t = start_value t st"
| "parse_step PArrayStart st t = (if t = TRBracket then close_array st else start_value t st)"
| "parse_step PObjectStart st t = (if t = TRBrace then close_object st else read_key t st)"
| "parse_step PKey st t = read_key t st"
| "parse_step PColon st t = (if t = TColon then Some (PValue, st) else None)"
| "parse_step PAfter st t =
     (if t = TComma then
        (case st of
           FArray vs # st' \<Rightarrow> Some (PValue, st)
         | FObject kvs k # st' \<Rightarrow> Some (PKey, st)
         | [] \<Rightarrow> None)
      else if t = TRBracket then close_array st
      else if t = TRBrace then close_object st
      else None)"
| "parse_step (PDone v) st t = None"

fun parse_tokens :: "parse_state \<Rightarrow> frame list \<Rightarrow> token list \<Rightarrow> json option" where
  "parse_tokens p st [] = (case p of PDone v \<Rightarrow> Some v | _ \<Rightarrow> None)"
| "parse_tokens p st (t # ts) =
     (case parse_step p st t of None \<Rightarrow> None | Some (p', st') \<Rightarrow> parse_tokens p' st' ts)"

text \<open>\<^verbatim>\<open>JSON.parse(text)\<close>; \<open>None\<close> is the SyntaxError it throws.\<close>

definition JSON_parse :: "jsstring \<Rightarrow> json option" where
  "JSON_parse s = (case lex_run Idle s of None \<Rightarrow> None | Some ts \<Rightarrow> parse_tokens PValue [] ts)"

text \<open>
  Truthiness of a parsed value. A number is falsy when it is zero as a double, that is
  when the decimal value is zero or rounds to zero (at most \<open>2 ^ (-1075)\<close> in size).
\<close>

fun truthy :: "json \<Rightarrow> bool" where
  "truthy JNull = False"
| "truthy (JBool b) = b"
| "truthy (JNumber m e) =
     (m \<noteq> 0 \<and> (0 \<le> e \<or> 10 ^ nat (- e) < \<bar>m\<bar> * 2 ^ 1075))"
| "truthy (JString s) = (s \<noteq> [])"
| "truthy (JArray vs) = True"
| "truthy (JObject kvs) = True"

section \<open>The frame decoder\<close>

text \<open>\<^verbatim>\<open>parseSSEData\<close> of \<^verbatim>\<open>utils.ts\<close>; \<open>JNull\<close> is its \<^verbatim>\<open>null\<close>.\<close>

definition parseSSEData :: "jsstring \<Rightarrow> json" where
  "parseSSEData line =
     (let trimmed = trim line in
      if trimmed = [] \<or> \<not> startsWith trimmed (js ''data: '') then JNull
      else
        let data = drop 6 trimmed in
        if data = js ''[DONE]'' then JObject [(js ''type'', JString (js ''done''))]
        else (case JSON_parse data of None \<Rightarrow> JNull | Some v \<Rightarrow> v))"

text \<open>
  The lines of one chunk: \<^verbatim>\<open>buffer += chunk; lines = buffer.split("\n"); buffer = lines.pop() || ""\<close>.
  The chunk is the text that \<^verbatim>\<open>decoder.decode(value, {stream: true})\<close> returns for one read.
\<close>

definition pop_line :: "jsstring list \<Rightarrow> jsstring list \<times> jsstring" where
  "pop_line ls = (if ls = [] then ([], []) else (butlast ls, last ls))"

definition take_lines :: "jsstring \<Rightarrow> jsstring \<Rightarrow> jsstring list \<times> jsstring" where
  "take_lines buffer chunk = pop_line (split_nl (buffer @ chunk))"

text \<open>The values a line passes on: the loop skips a falsy \<^verbatim>\<open>parsed\<close> (\<^verbatim>\<open>if (!parsed) continue\<close>).\<close>

definition decode_line :: "jsstring \<Rightarrow> json list" where
  "decode_line line = (let parsed = parseSSEData line in if truthy parsed then [parsed] else [])"

text \<open>
  The decoder on its own: the values decoded from a sequence of chunks, starting with
  \<open>buffer\<close>. What is left in the buffer when the reader is done is never parsed.
\<close>

fun decode_chunks :: "jsstring \<Rightarrow> jsstring list \<Rightarrow> json list" where
  "decode_chunks buffer [] = []"
| "decode_chunks buffer (chunk # rest) =
     (case take_lines buffer chunk of
        (lines, buffer') \<Rightarrow> concat (map decode_line lines) @ decode_chunks buffer' rest)"

section \<open>Messages\<close>

text \<open>\<^verbatim>\<open>SSEMessage\<close> and \<^verbatim>\<open>ToolCallData\<close> of \<^verbatim>\<open>types.ts\<close>. An optional field is an option.
  \<^verbatim>\<open>arguments\<close> is declared a string; the code also provides for its absence
  (\<^verbatim>\<open>tc.function.arguments || "{}"\<close>), so it is an option here.\<close>

datatype SSEType =
    T_content | T_thinking | T_tool_calls | T_tool_start
  | T_tool_result | T_tool_error | T_error | T_done

record ToolCallData =
  tc_id :: jsstring
  tc_name :: jsstring
  tc_arguments :: "jsstring option"

record SSEMessage =
  msg_type :: SSEType
  msg_text :: "jsstring option"
  msg_tool_calls :: "ToolCallData list option"
  msg_tool_name :: "jsstring option"
  msg_args :: "json option"
  msg_result :: "jsstring option"
  msg_content :: "jsstring option"
  msg_error :: "jsstring option"

text \<open>
  \<^verbatim>\<open>parsed as SSEMessage\<close> is an unchecked cast. The model follows the code on the values
  that inhabit the interface; \<open>as_SSEMessage\<close> reads such a value and is \<open>None\<close> on
  every other one.
\<close>

definition get_field :: "(jsstring \<times> json) list \<Rightarrow> jsstring \<Rightarrow> json option" where
  "get_field kvs k = map_of (rev kvs) k"

definition string_field :: "(jsstring \<times> json) list \<Rightarrow> jsstring \<Rightarrow> jsstring option option" where
  "string_field kvs k =
     (case get_field kvs k of
        None \<Rightarrow> Some None
      | Some (JString s) \<Rightarrow> Some (Some s)
      | Some _ \<Rightarrow> None)"

definition SSEType_of :: "jsstring \<Rightarrow> SSEType option" where
  "SSEType_of t =
     (if t = js ''content'' then Some T_content
      else if t = js ''thinking'' then Some T_thinking
      else if t = js ''tool_calls'' then Some T_tool_calls
      else if t = js ''tool_start'' then Some T_tool_start
      else if t = js ''tool_result'' then Some T_tool_result
      else if t = js ''tool_error'' then Some T_tool_error
      else if t = js ''error'' then Some T_error
      else if t = js ''done'' then Some T_done
      else None)"

definition as_ToolCallData :: "json \<Rightarrow> ToolCallData option" where
  "as_ToolCallData v =
     (case v of
        JObject kvs \<Rightarrow>
          (case (get_field kvs (js ''id''), get_field kvs (js ''function'')) of
             (Some (JString i), Some (JObject fkvs)) \<Rightarrow>
               (case (get_field fkvs (js ''name''), string_field fkvs (js ''arguments'')) of
                  (Some (JString n), Some a) \<Rightarrow>
                    Some \<lparr>tc_id = i, tc_name = n, tc_arguments = a\<rparr>
                | _ \<Rightarrow> None)
           | _ \<Rightarrow> None)
      | _ \<Rightarrow> None)"

definition tool_calls_field :: "(jsstring \<times> json) list \<Rightarrow> ToolCallData list option option" where
  "tool_calls_field kvs =
     (case get_field kvs (js ''tool_calls'') of
        None \<Rightarrow> Some None
      | Some (JArray vs) \<Rightarrow> map_option Some (those (map as_ToolCallData vs))
      | Some _ \<Rightarrow> None)"

definition as_SSEMessage :: "json \<Rightarrow> SSEMessage option" where
  "as_SSEMessage v =
     (case v of
        JObject kvs \<Rightarrow>
          (case get_field kvs (js ''type'') of
             Some (JString t) \<Rightarrow>
               do {
                 ty \<leftarrow> SSEType_of t;
                 text \<leftarrow> string_field kvs (js ''text'');
                 tcs \<leftarrow> tool_calls_field kvs;
                 tn \<leftarrow> string_field kvs (js ''tool_name'');
                 res \<leftarrow> string_field kvs (js ''result'');
                 con \<leftarrow> string_field kvs (js ''content'');
                 err \<leftarrow> string_field kvs (js ''error'');
                 Some \<lparr>msg_type = ty, msg_text = text, msg_tool_calls = tcs, msg_tool_name = tn,
                        msg_args = get_field kvs (js ''args''), msg_result = res,
                        msg_content = con, msg_error = err\<rparr>
               }
           | _ \<Rightarrow> None)
      | _ \<Rightarrow> None)"

section \<open>The turn assembler\<close>

text \<open>The content parts that \<^verbatim>\<open>run\<close> builds: text parts and tool-call parts; \<open>result\<close> is
  absent until a tool result sets it.\<close>

datatype ContentPart =
    TextPart jsstring
  | ToolCallPart jsstring jsstring json jsstring "jsstring option"
    \<comment> \<open>\<^verbatim>\<open>toolCallId\<close>, \<^verbatim>\<open>toolName\<close>, \<^verbatim>\<open>args\<close>, \<^verbatim>\<open>argsText\<close>, \<^verbatim>\<open>result\<close>\<close>

record run_state =
  contentParts :: "ContentPart list"
  currentTextIndex :: int
  toolCallsIndex :: int

definition initial_state :: run_state where
  "initial_state = \<lparr>contentParts = [], currentTextIndex = - 1, toolCallsIndex = - 1\<rparr>"

text \<open>\<^verbatim>\<open>contentParts[i]\<close>: \<^verbatim>\<open>undefined\<close> outside the array.\<close>

definition part_at :: "ContentPart list \<Rightarrow> int \<Rightarrow> ContentPart option" where
  "part_at ps i = (if 0 \<le> i \<and> nat i < length ps then Some (ps ! nat i) else None)"

text \<open>Truthiness of an optional string field: present and not empty.\<close>

definition present :: "jsstring option \<Rightarrow> bool" where
  "present f \<longleftrightarrow> (case f of None \<Rightarrow> False | Some s \<Rightarrow> s \<noteq> [])"

datatype thrown =
    StreamFailure jsstring   \<comment> \<open>\<^verbatim>\<open>new Error(message.error || "Stream error")\<close>\<close>
  | ArgumentsSyntaxError     \<comment> \<open>the SyntaxError of \<^verbatim>\<open>JSON.parse\<close>\<close>

datatype switch_result =
    Break run_state          \<comment> \<open>the switch is left; the yield follows\<close>
  | Throw thrown run_state   \<comment> \<open>an exception leaves the switch, with the state as it is by then\<close>
  | Return                   \<comment> \<open>\<^verbatim>\<open>return\<close> of the generator\<close>

text \<open>Case \<^verbatim>\<open>"content"\<close>, for a truthy \<^verbatim>\<open>message.text\<close>. \<open>no_open_text\<close> is the condition of
  its \<^verbatim>\<open>if\<close>: no index, no part at the index, or a part there that is no text part. In the
  other branch the part at the index is a text part.\<close>

definition is_text :: "ContentPart \<Rightarrow> bool" where
  "is_text p = (case p of TextPart t \<Rightarrow> True | _ \<Rightarrow> False)"

definition no_open_text :: "run_state \<Rightarrow> bool" where
  "no_open_text st \<longleftrightarrow>
     currentTextIndex st = - 1 \<or>
     part_at (contentParts st) (currentTextIndex st) = None \<or>
     \<not> is_text (the (part_at (contentParts st) (currentTextIndex st)))"

definition on_content :: "jsstring \<Rightarrow> run_state \<Rightarrow> run_state" where
  "on_content t st =
     (if no_open_text st then
        st\<lparr>currentTextIndex := int (length (contentParts st)),
            contentParts := contentParts st @ [TextPart t]\<rparr>
      else
        (case part_at (contentParts st) (currentTextIndex st) of
           Some (TextPart old) \<Rightarrow>
             st\<lparr>contentParts :=
                  (contentParts st)[nat (currentTextIndex st) :=
                     TextPart ((if old \<noteq> [] then old else []) @ t)]\<rparr>
         | _ \<Rightarrow> st))"

text \<open>Case \<^verbatim>\<open>"tool_calls"\<close>: the loop over the batch. \<^verbatim>\<open>JSON.parse\<close> may throw before the push
  of an announcement; the parts pushed before it stay. The flag tells whether the loop
  ran to its end.\<close>

definition arguments_text :: "ToolCallData \<Rightarrow> jsstring" where
  "arguments_text tc = (if present (tc_arguments tc) then the (tc_arguments tc) else js ''{}'')"

definition tool_call_part :: "ToolCallData \<Rightarrow> json \<Rightarrow> ContentPart" where
  "tool_call_part tc a = ToolCallPart (tc_id tc) (tc_name tc) a (arguments_text tc) None"

fun push_tool_calls :: "ToolCallData list \<Rightarrow> ContentPart list \<Rightarrow> ContentPart list \<times> bool" where
  "push_tool_calls [] ps = (ps, True)"
| "push_tool_calls (tc # tcs) ps =
     (case JSON_parse (arguments_text tc) of
        None \<Rightarrow> (ps, False)
      | Some a \<Rightarrow> push_tool_calls tcs (ps @ [tool_call_part tc a]))"

definition on_tool_calls :: "ToolCallData list \<Rightarrow> run_state \<Rightarrow> switch_result" where
  "on_tool_calls tcs st =
     (let st1 = st\<lparr>toolCallsIndex := int (length (contentParts st))\<rparr> in
      case push_tool_calls tcs (contentParts st1) of
        (ps, True) \<Rightarrow> Break (st1\<lparr>contentParts := ps, currentTextIndex := - 1\<rparr>)
      | (ps, False) \<Rightarrow> Throw ArgumentsSyntaxError (st1\<lparr>contentParts := ps\<rparr>))"

text \<open>Case \<^verbatim>\<open>"tool_result"\<close>: the loop that stops at the first tool-call part with the name.\<close>

definition is_call_named :: "jsstring \<Rightarrow> ContentPart \<Rightarrow> bool" where
  "is_call_named n p = (case p of ToolCallPart i nm a at res \<Rightarrow> nm = n | TextPart t \<Rightarrow> False)"

definition with_result :: "jsstring \<Rightarrow> ContentPart \<Rightarrow> ContentPart" where
  "with_result r p =
     (case p of ToolCallPart i nm a at res \<Rightarrow> ToolCallPart i nm a at (Some r) | TextPart t \<Rightarrow> p)"

fun set_first_result :: "jsstring \<Rightarrow> jsstring \<Rightarrow> ContentPart list \<Rightarrow> ContentPart list" where
  "set_first_result n r [] = []"
| "set_first_result n r (p # ps) =
     (if is_call_named n p then with_result r p # ps else p # set_first_result n r ps)"

text \<open>Case \<^verbatim>\<open>"tool_error"\<close>: the text of the notice.\<close>

definition tool_error_text :: "jsstring \<Rightarrow> jsstring" where
  "tool_error_text e = [9888, 65039] @ js '' Tool Error: '' @ e @ [10, 10]"

text \<open>The \<^verbatim>\<open>switch (message.type)\<close> of \<^verbatim>\<open>run\<close>.\<close>

fun handle_message :: "SSEMessage \<Rightarrow> run_state \<Rightarrow> switch_result" where
  "handle_message m st =
     (case msg_type m of
        T_thinking \<Rightarrow> Break st
      | T_content \<Rightarrow>
          (if present (msg_text m) then Break (on_content (the (msg_text m)) st) else Break st)
      | T_tool_calls \<Rightarrow>
          (case msg_tool_calls m of
             None \<Rightarrow> Break st
           | Some tcs \<Rightarrow> if 0 < length tcs then on_tool_calls tcs st else Break st)
      | T_tool_start \<Rightarrow> Break st
      | T_tool_result \<Rightarrow>
          (if present (msg_tool_name m) \<and> present (msg_result m) then
             Break (st\<lparr>contentParts :=
                      set_first_result (the (msg_tool_name m)) (the (msg_result m))
                        (contentParts st)\<rparr>)
           else Break st)
      | T_tool_error \<Rightarrow>
          (if present (msg_error m) then
             Break (st\<lparr>contentParts :=
                      contentParts st @ [TextPart (tool_error_text (the (msg_error m)))]\<rparr>)
           else Break st)
      | T_error \<Rightarrow>
          Throw (StreamFailure (if present (msg_error m) then the (msg_error m)
                                else js ''Stream error'')) st
      | T_done \<Rightarrow> Return)"

text \<open>
  The body of the \<^verbatim>\<open>for\<close> loop after the parse: the switch inside \<^verbatim>\<open>try\<close>, the yield of a
  copy of the parts when there is one, and the \<^verbatim>\<open>catch\<close>, which logs and goes on with the
  next line. The result is what was yielded and how the loop goes on.
\<close>

datatype flow = Next run_state | Stop

definition process_message :: "SSEMessage \<Rightarrow> run_state \<Rightarrow> ContentPart list list \<times> flow" where
  "process_message m st =
     (case handle_message m st of
        Break st' \<Rightarrow> (if 0 < length (contentParts st') then [contentParts st'] else [], Next st')
      | Throw e st' \<Rightarrow> ([], Next st')
      | Return \<Rightarrow> ([], Stop))"

text \<open>The \<^verbatim>\<open>for\<close> loop over decoded messages.\<close>

fun process_messages :: "SSEMessage list \<Rightarrow> run_state \<Rightarrow> ContentPart list list \<times> flow" where
  "process_messages [] st = ([], Next st)"
| "process_messages (m # ms) st =
     (case process_message m st of
        (ys, Stop) \<Rightarrow> (ys, Stop)
      | (ys, Next st') \<Rightarrow> (case process_messages ms st' of (ys', f) \<Rightarrow> (ys @ ys', f)))"

section \<open>The generator \<^verbatim>\<open>run\<close>\<close>

text \<open>
  What the transport delivers: \<^verbatim>\<open>fetch\<close> rejects or resolves to a response; each
  \<^verbatim>\<open>reader.read()\<close> rejects or resolves to a chunk, and the reader is done after the
  last element of the list. An error is an \<^verbatim>\<open>Error\<close> object with its name and message.
\<close>

datatype js_error = JsError jsstring jsstring

datatype read_result = Chunk jsstring | ReadRejected js_error

datatype fetch_result =
    FetchRejected js_error
  | Response bool nat jsstring "read_result list option"
    \<comment> \<open>\<^verbatim>\<open>ok\<close>, \<^verbatim>\<open>status\<close>, \<^verbatim>\<open>statusText\<close>, the reads of \<^verbatim>\<open>body\<close> when there is a body\<close>

datatype outcome = Completed | Raised js_error

definition isAbortError :: "js_error \<Rightarrow> bool" where
  "isAbortError e = (case e of JsError n m \<Rightarrow> n = js ''AbortError'')"

text \<open>The outer \<^verbatim>\<open>catch\<close>: an abort ends the generator silently, anything else is thrown on.\<close>

definition outer_catch :: "js_error \<Rightarrow> outcome" where
  "outer_catch e = (if isAbortError e then Completed else Raised e)"

function decimal :: "nat \<Rightarrow> jsstring" where
  "decimal n = (if n < 10 then [48 + n] else decimal (n div 10) @ [48 + n mod 10])"
  by pat_completeness auto
termination
  by (relation "measure id") auto

declare decimal.simps [simp del]

text \<open>
  One line of the \<^verbatim>\<open>for\<close> loop. The result is \<open>None\<close> when the line carries a truthy value
  that is no \<^verbatim>\<open>SSEMessage\<close>: the model says nothing about such a stream.
\<close>

definition process_line ::
  "jsstring \<Rightarrow> run_state \<Rightarrow> (ContentPart list list \<times> flow) option" where
  "process_line line st =
     (let parsed = parseSSEData line in
      if \<not> truthy parsed then Some ([], Next st)
      else (case as_SSEMessage parsed of
              None \<Rightarrow> None
            | Some m \<Rightarrow> Some (process_message m st)))"

fun process_lines ::
  "jsstring list \<Rightarrow> run_state \<Rightarrow> (ContentPart list list \<times> flow) option" where
  "process_lines [] st = Some ([], Next st)"
| "process_lines (l # ls) st =
     (case process_line l st of
        None \<Rightarrow> None
      | Some (ys, Stop) \<Rightarrow> Some (ys, Stop)
      | Some (ys, Next st') \<Rightarrow>
          (case process_lines ls st' of None \<Rightarrow> None | Some (ys', f) \<Rightarrow> Some (ys @ ys', f)))"

text \<open>The \<^verbatim>\<open>while (true)\<close> loop and the final yield after it.\<close>

fun read_loop ::
  "read_result list \<Rightarrow> jsstring \<Rightarrow> run_state \<Rightarrow> (ContentPart list list \<times> outcome) option" where
  "read_loop [] buffer st =
     Some (if 0 < length (contentParts st) then [contentParts st] else [], Completed)"
| "read_loop (ReadRejected e # rs) buffer st = Some ([], outer_catch e)"
| "read_loop (Chunk c # rs) buffer st =
     (case take_lines buffer c of
        (lines, buffer') \<Rightarrow>
          (case process_lines lines st of
             None \<Rightarrow> None
           | Some (ys, Stop) \<Rightarrow> Some (ys, Completed)
           | Some (ys, Next st') \<Rightarrow>
               (case read_loop rs buffer' st' of
                  None \<Rightarrow> None
                | Some (ys', out) \<Rightarrow> Some (ys @ ys', out))))"

text \<open>\<^verbatim>\<open>run\<close>: the snapshots yielded, in order, and how the generator ends.\<close>

definition run :: "fetch_result \<Rightarrow> (ContentPart list list \<times> outcome) option" where
  "run f =
     (case f of
        FetchRejected e \<Rightarrow> Some ([], outer_catch e)
      | Response ok status statusText body \<Rightarrow>
          if \<not> ok then
            Some ([], outer_catch (JsError (js ''Error'')
                    (js ''API error: '' @ decimal status @ js '' '' @ statusText)))
          else
            (case body of
               None \<Rightarrow> Some ([], outer_catch (JsError (js ''Error'') (js ''No response body'')))
             | Some reads \<Rightarrow> read_loop reads [] initial_state))"

section \<open>The specification's rule for a tool result\<close>

text \<open>
  The specification words the tool-result rule differently from the loop above: the
  result goes to the first tool-call segment with the name that has no result yet.
  \<open>spec_set_first_unresolved\<close> follows those words, for comparison with
  \<open>set_first_result\<close>.
\<close>

definition is_unresolved_call :: "jsstring \<Rightarrow> ContentPart \<Rightarrow> bool" where
  "is_unresolved_call n p =
     (case p of ToolCallPart i nm a at res \<Rightarrow> nm = n \<and> res = None | TextPart t \<Rightarrow> False)"

fun spec_set_first_unresolved ::
  "jsstring \<Rightarrow> jsstring \<Rightarrow> ContentPart list \<Rightarrow> ContentPart list" where
  "spec_set_first_unresolved n r [] = []"
| "spec_set_first_unresolved n r (p # ps) =
     (if is_unresolved_call n p then with_result r p # ps
      else p # spec_set_first_unresolved n r ps)"

section \<open>Auxiliary notions\<close>

text \<open>A message that carries its type only.\<close>

definition bare_message :: "SSEType \<Rightarrow> SSEMessage" where
  "bare_message ty =
     \<lparr>msg_type = ty, msg_text = None, msg_tool_calls = None, msg_tool_name = None,
      msg_args = None, msg_result = None, msg_content = None, msg_error = None\<rparr>"

text \<open>The index is either unset or the position of a text part.\<close>

definition index_ok :: "run_state \<Rightarrow> bool" where
  "index_ok st \<longleftrightarrow> currentTextIndex st = - 1 \<or> \<not> no_open_text st"

text \<open>How \<^verbatim>\<open>run\<close> ends once the lines of the whole stream are processed: with the final yield
  unless a done message ended it.\<close>

definition finish :: "(ContentPart list list \<times> flow) option \<Rightarrow> (ContentPart list list \<times> outcome) option" where
  "finish r =
     (case r of
        None \<Rightarrow> None
      | Some (ys, Stop) \<Rightarrow> Some (ys, Completed)
      | Some (ys, Next st) \<Rightarrow>
          Some (ys @ (if 0 < length (contentParts st) then [contentParts st] else []), Completed))"

section \<open>Evaluation\<close>

lemmas decoder_eval =
  parseSSEData_def JSON_parse_def js_def trim_def startsWith_def is_js_whitespace_def
  is_digit_def digits_value_def hex_value_def number_of_def is_json_whitespace_def
  is_word_unit_def word_token_def unescape_def lex_idle_def start_value_def close_array_def
  close_object_def read_key_def Let_def

lemmas assembler_eval =
  process_message_def on_content_def no_open_text_def is_text_def part_at_def present_def
  on_tool_calls_def arguments_text_def tool_call_part_def is_call_named_def with_result_def
  tool_error_text_def initial_state_def bare_message_def

lemmas run_eval =
  run_def process_line_def take_lines_def pop_line_def decode_line_def as_SSEMessage_def
  as_ToolCallData_def tool_calls_field_def string_field_def get_field_def SSEType_of_def
  outer_catch_def isAbortError_def

section \<open>Chunk boundaries\<close>

lemma split_nl_not_Nil: "split_nl s \<noteq> []"
  by (induction s) (auto split: list.splits)

lemma split_nl_append:
  "split_nl (a @ b) = butlast (split_nl a) @ split_nl (last (split_nl a) @ b)"
proof (induction a)
  case Nil
  show ?case by simp
next
  case (Cons c a)
  obtain l ls where a: "split_nl a = l # ls"
    using split_nl_not_Nil [of a] by (cases "split_nl a") auto
  show ?case
  proof (cases "ls = []")
    case True
    with a Cons show ?thesis
      by (cases "split_nl (l @ b)") (auto simp: split_nl_not_Nil)
  next
    case False
    with a Cons show ?thesis by auto
  qed
qed

lemma last_split_nl_no_nl: "10 \<notin> set (last (split_nl s))"
  by (induction s) (auto simp: split_nl_not_Nil split: list.splits)

lemma split_nl_no_nl: "10 \<notin> set s \<Longrightarrow> split_nl s = [s]"
  by (induction s) auto

text \<open>With a buffer that holds no line feed, the decoder sees the complete lines of the
  whole text, whatever the chunks are.\<close>

lemma decode_chunks_lines:
  "10 \<notin> set buffer \<Longrightarrow>
   decode_chunks buffer chunks =
     concat (map decode_line (butlast (split_nl (buffer @ concat chunks))))"
proof (induction chunks arbitrary: buffer)
  case Nil
  then show ?case by (simp add: split_nl_no_nl)
next
  case (Cons c cs)
  let ?L = "split_nl (buffer @ c)"
  have tl: "take_lines buffer c = (butlast ?L, last ?L)"
    by (simp add: take_lines_def pop_line_def split_nl_not_Nil)
  have ih: "decode_chunks (last ?L) cs =
      concat (map decode_line (butlast (split_nl (last ?L @ concat cs))))"
    by (rule Cons.IH) (rule last_split_nl_no_nl)
  have "split_nl (buffer @ concat (c # cs)) = butlast ?L @ split_nl (last ?L @ concat cs)"
    using split_nl_append [of "buffer @ c" "concat cs"] by simp
  then have "butlast (split_nl (buffer @ concat (c # cs))) =
      butlast ?L @ butlast (split_nl (last ?L @ concat cs))"
    by (simp add: butlast_append split_nl_not_Nil)
  with tl ih show ?case by simp
qed

text \<open>
  C6. However a text is cut into chunks, the decoder, fed the chunks one at a time from an
  empty buffer, decodes the same sequence of values as when it is fed the whole text as a
  single chunk. This holds for every text, well-formed or not.
\<close>

theorem chunk_boundary_invariance:
  "decode_chunks [] chunks = decode_chunks [] [concat chunks]"
proof -
  have "decode_chunks [] chunks = concat (map decode_line (butlast (split_nl (concat chunks))))"
    using decode_chunks_lines [of "[]" chunks] by simp
  moreover have "decode_chunks [] [concat chunks] =
      concat (map decode_line (butlast (split_nl (concat chunks))))"
    using decode_chunks_lines [of "[]" "[concat chunks]"] by simp
  ultimately show ?thesis by simp
qed

text \<open>The same holds for \<^verbatim>\<open>run\<close> as a whole: its snapshots and its end depend on the text of
  the stream only, not on the chunks.\<close>

lemma process_lines_append:
  "process_lines (ls @ ls') st =
     (case process_lines ls st of
        None \<Rightarrow> None
      | Some (ys, Stop) \<Rightarrow> Some (ys, Stop)
      | Some (ys, Next st') \<Rightarrow>
          (case process_lines ls' st' of None \<Rightarrow> None | Some (ys', f) \<Rightarrow> Some (ys @ ys', f)))"
proof (induction ls arbitrary: st)
  case Nil
  show ?case by (cases "process_lines ls' st") auto
next
  case (Cons l ls)
  show ?case
  proof (cases "process_line l st")
    case None
    then show ?thesis by simp
  next
    case (Some r)
    obtain ys f where r: "r = (ys, f)" by (cases r)
    show ?thesis
    proof (cases f)
      case Stop
      with Some r show ?thesis by simp
    next
      case (Next st1)
      with Some r Cons [of st1] show ?thesis
        by (auto split: option.splits flow.splits prod.splits)
    qed
  qed
qed

lemma read_loop_lines:
  "10 \<notin> set buffer \<Longrightarrow>
   read_loop (map Chunk chunks) buffer st =
     finish (process_lines (butlast (split_nl (buffer @ concat chunks))) st)"
proof (induction chunks arbitrary: buffer st)
  case Nil
  then show ?case by (simp add: split_nl_no_nl finish_def)
next
  case (Cons c cs)
  let ?L = "split_nl (buffer @ c)"
  have tl: "take_lines buffer c = (butlast ?L, last ?L)"
    by (simp add: take_lines_def pop_line_def split_nl_not_Nil)
  have ih: "\<And>st'. read_loop (map Chunk cs) (last ?L) st' =
      finish (process_lines (butlast (split_nl (last ?L @ concat cs))) st')"
    by (rule Cons.IH) (rule last_split_nl_no_nl)
  have "split_nl (buffer @ concat (c # cs)) = butlast ?L @ split_nl (last ?L @ concat cs)"
    using split_nl_append [of "buffer @ c" "concat cs"] by simp
  then have bl: "butlast (split_nl (buffer @ concat (c # cs))) =
      butlast ?L @ butlast (split_nl (last ?L @ concat cs))"
    by (simp add: butlast_append split_nl_not_Nil)
  show ?case
    unfolding bl process_lines_append
    using tl ih
    by (auto simp add: finish_def split: option.splits flow.splits prod.splits)
qed

lemma run_independent_of_chunking:
  "run (Response True status statusText (Some (map Chunk chunks))) =
   run (Response True status statusText (Some [Chunk (concat chunks)]))"
proof -
  have "read_loop (map Chunk chunks) [] initial_state =
      finish (process_lines (butlast (split_nl (concat chunks))) initial_state)"
    using read_loop_lines [of "[]" chunks] by simp
  moreover have "read_loop (map Chunk [concat chunks]) [] initial_state =
      finish (process_lines (butlast (split_nl (concat chunks))) initial_state)"
    using read_loop_lines [of "[]" "[concat chunks]"] by simp
  ultimately show ?thesis by (simp add: run_def)
qed

section \<open>Lines that carry no event\<close>

text \<open>
  C8 (as amended). The decoder trims a line before it looks at it. For every line whose
  trimmed text does not begin with the prefix \<^verbatim>\<open>data: \<close>, \<^verbatim>\<open>parseSSEData\<close> returns \<^verbatim>\<open>null\<close>, the
  line passes no value on, and the loop goes on with the state as it is and yields
  nothing.
\<close>

theorem non_data_line_no_event:
  "\<not> startsWith (trim line) (js ''data: '') \<Longrightarrow>
   parseSSEData line = JNull \<and> decode_line line = [] \<and> process_line line st = Some ([], Next st)"
  by (simp add: parseSSEData_def decode_line_def process_line_def)

theorem non_data_line_no_event_witness:
  "\<not> startsWith (trim (js ''event: ping'')) (js ''data: '') \<and>
   parseSSEData (js ''event: ping'') = JNull \<and> decode_line (js ''event: ping'') = [] \<and>
   process_line (js ''event: ping'') initial_state = Some ([], Next initial_state)"
proof -
  have h: "\<not> startsWith (trim (js ''event: ping'')) (js ''data: '')"
    by (simp add: decoder_eval)
  from non_data_line_no_event [OF h, of initial_state] h show ?thesis by simp
qed

text \<open>
  C8 as stated fails: a line that begins with a space and not with \<^verbatim>\<open>data: \<close> is trimmed
  first, and then decodes to the done message.
\<close>

theorem indented_data_line_decodes:
  "\<not> startsWith (js '' data: [DONE]'') (js ''data: '') \<and>
   decode_line (js '' data: [DONE]'') = [JObject [(js ''type'', JString (js ''done''))]] \<and>
   map_option msg_type (as_SSEMessage (parseSSEData (js '' data: [DONE]''))) = Some T_done \<and>
   process_line (js '' data: [DONE]'') initial_state = Some ([], Stop)"
  by (simp add: decode_line_def decoder_eval run_eval process_message_def)

text \<open>
  C9 (as amended). For every line whose trimmed text begins with \<^verbatim>\<open>data: \<close> and whose
  payload, the rest of the trimmed text, is neither \<^verbatim>\<open>[DONE]\<close> nor valid JSON,
  \<^verbatim>\<open>parseSSEData\<close> returns \<^verbatim>\<open>null\<close> without raising, the line passes no value on, and the
  loop goes on with the state as it is. The line \<^verbatim>\<open>data: [DONE]\<close> decodes to exactly one
  value, the done message, which ends the generator, although \<^verbatim>\<open>[DONE]\<close> is no valid
  JSON.
\<close>

theorem malformed_payload_no_event:
  "(startsWith (trim line) (js ''data: '') \<and> drop 6 (trim line) \<noteq> js ''[DONE]'' \<and>
      JSON_parse (drop 6 (trim line)) = None
    \<longrightarrow> parseSSEData line = JNull \<and> decode_line line = [] \<and>
        process_line line st = Some ([], Next st)) \<and>
   decode_line (js ''data: [DONE]'') = [JObject [(js ''type'', JString (js ''done''))]] \<and>
   map_option msg_type (as_SSEMessage (parseSSEData (js ''data: [DONE]''))) = Some T_done \<and>
   process_line (js ''data: [DONE]'') st = Some ([], Stop) \<and>
   JSON_parse (js ''[DONE]'') = None"
proof -
  have a: "decode_line (js ''data: [DONE]'') = [JObject [(js ''type'', JString (js ''done''))]]"
    by (simp add: decode_line_def decoder_eval)
  have b: "map_option msg_type (as_SSEMessage (parseSSEData (js ''data: [DONE]''))) = Some T_done"
    by (simp add: decoder_eval run_eval)
  have c: "startsWith (trim line) (js ''data: '') \<and> drop 6 (trim line) \<noteq> js ''[DONE]'' \<and>
      JSON_parse (drop 6 (trim line)) = None
    \<longrightarrow> parseSSEData line = JNull \<and> decode_line line = [] \<and>
        process_line line st = Some ([], Next st)"
    by (auto simp add: parseSSEData_def decode_line_def process_line_def Let_def
        split: option.splits)
  have d: "JSON_parse (js ''[DONE]'') = None"
    by (simp add: decoder_eval)
  have e: "process_line (js ''data: [DONE]'') st = Some ([], Stop)"
    by (simp add: decoder_eval run_eval process_message_def)
  from a b c d e show ?thesis by blast
qed

theorem malformed_payload_no_event_witness:
  "startsWith (trim (js ''data: {not valid json}'')) (js ''data: '') \<and>
   drop 6 (trim (js ''data: {not valid json}'')) \<noteq> js ''[DONE]'' \<and>
   JSON_parse (drop 6 (trim (js ''data: {not valid json}''))) = None \<and>
   parseSSEData (js ''data: {not valid json}'') = JNull \<and>
   decode_line (js ''data: {not valid json}'') = [] \<and>
   process_line (js ''data: {not valid json}'') initial_state = Some ([], Next initial_state)"
proof -
  have h: "startsWith (trim (js ''data: {not valid json}'')) (js ''data: '') \<and>
   drop 6 (trim (js ''data: {not valid json}'')) \<noteq> js ''[DONE]'' \<and>
   JSON_parse (drop 6 (trim (js ''data: {not valid json}''))) = None"
    by (simp add: decoder_eval)
  with malformed_payload_no_event [of "js ''data: {not valid json}''" initial_state] show ?thesis by blast
qed

text \<open>
  C9 as stated fails: in the line \<^verbatim>\<open>data: [DONE]\<close> followed by a carriage return, the text
  after the prefix is neither \<^verbatim>\<open>[DONE]\<close> nor valid JSON, and the line still decodes to the
  done message.
\<close>

theorem done_before_carriage_return_decodes:
  "startsWith (js ''data: [DONE]'' @ [13]) (js ''data: '') \<and>
   drop 6 (js ''data: [DONE]'' @ [13]) \<noteq> js ''[DONE]'' \<and>
   JSON_parse (drop 6 (js ''data: [DONE]'' @ [13])) = None \<and>
   decode_line (js ''data: [DONE]'' @ [13]) = [JObject [(js ''type'', JString (js ''done''))]] \<and>
   process_line (js ''data: [DONE]'' @ [13]) initial_state = Some ([], Stop)"
  by (simp add: decode_line_def decoder_eval run_eval process_message_def)

section \<open>Tool results\<close>

lemma set_first_result_length: "length (set_first_result n r ps) = length ps"
  by (induction ps) auto

lemma set_first_result_none:
  "\<forall>p \<in> set ps. \<not> is_call_named n p \<Longrightarrow> set_first_result n r ps = ps"
  by (induction ps) auto

lemma set_first_result_nth:
  "i < length ps \<Longrightarrow>
   set_first_result n r ps ! i =
     (if is_call_named n (ps ! i) \<and> (\<forall>j < i. \<not> is_call_named n (ps ! j))
      then with_result r (ps ! i) else ps ! i)"
proof (induction ps arbitrary: i)
  case Nil
  then show ?case by simp
next
  case (Cons p ps)
  show ?case
  proof (cases i)
    case 0
    then show ?thesis by simp
  next
    case (Suc k)
    with Cons.prems have k: "k < length ps" by simp
    show ?thesis
    proof (cases "is_call_named n p")
      case True
      then have "\<not> (\<forall>j < i. \<not> is_call_named n ((p # ps) ! j))"
        using Suc by auto
      with True Suc show ?thesis by auto
    next
      case False
      have "(\<forall>j < i. \<not> is_call_named n ((p # ps) ! j)) \<longleftrightarrow> (\<forall>j < k. \<not> is_call_named n (ps ! j))"
      proof
        assume a: "\<forall>j < i. \<not> is_call_named n ((p # ps) ! j)"
        show "\<forall>j < k. \<not> is_call_named n (ps ! j)"
        proof (intro allI impI)
          fix j assume "j < k"
          then have "Suc j < i" using Suc by simp
          with a have "\<not> is_call_named n ((p # ps) ! Suc j)" by blast
          then show "\<not> is_call_named n (ps ! j)" by simp
        qed
      next
        assume a: "\<forall>j < k. \<not> is_call_named n (ps ! j)"
        show "\<forall>j < i. \<not> is_call_named n ((p # ps) ! j)"
        proof (intro allI impI)
          fix j assume "j < i"
          then show "\<not> is_call_named n ((p # ps) ! j)"
            using a False Suc by (cases j) auto
        qed
      qed
      with False Suc Cons.IH [OF k] show ?thesis by auto
    qed
  qed
qed

text \<open>
  C2. The code does not do what the claim says. The loop stops at the first tool-call part
  with the name and never looks at an existing result. On a stream that announces a
  \<^verbatim>\<open>search\<close> call, delivers its result, announces a second \<^verbatim>\<open>search\<close> call and delivers that
  result, the second result overwrites the result of the first part and the second part
  stays without a result, where the rule of the specification passes the resolved part
  by and fills the second.
\<close>

theorem second_result_overwrites_first_call:
  "run (Response True 200 (js ''OK'')
     (Some [Chunk (js ''data: {\"type\":\"tool_calls\",\"tool_calls\":[{\"id\":\"1\",\"function\":{\"name\":\"search\",\"arguments\":\"{}\"}}]}\<newline>data: {\"type\":\"tool_result\",\"tool_name\":\"search\",\"result\":\"R1\"}\<newline>data: {\"type\":\"tool_calls\",\"tool_calls\":[{\"id\":\"2\",\"function\":{\"name\":\"search\",\"arguments\":\"{}\"}}]}\<newline>data: {\"type\":\"tool_result\",\"tool_name\":\"search\",\"result\":\"R2\"}\<newline>'')])) =
   Some ([[ToolCallPart (js ''1'') (js ''search'') (JObject []) (js ''{}'') None],
          [ToolCallPart (js ''1'') (js ''search'') (JObject []) (js ''{}'') (Some (js ''R1''))],
          [ToolCallPart (js ''1'') (js ''search'') (JObject []) (js ''{}'') (Some (js ''R1'')),
           ToolCallPart (js ''2'') (js ''search'') (JObject []) (js ''{}'') None],
          [ToolCallPart (js ''1'') (js ''search'') (JObject []) (js ''{}'') (Some (js ''R2'')),
           ToolCallPart (js ''2'') (js ''search'') (JObject []) (js ''{}'') None],
          [ToolCallPart (js ''1'') (js ''search'') (JObject []) (js ''{}'') (Some (js ''R2'')),
           ToolCallPart (js ''2'') (js ''search'') (JObject []) (js ''{}'') None]],
         Completed) \<and>
   handle_message
     ((bare_message T_tool_result)\<lparr>msg_tool_name := Some (js ''search''), msg_result := Some (js ''R2'')\<rparr>)
     \<lparr>contentParts =
        [ToolCallPart (js ''1'') (js ''search'') (JObject []) (js ''{}'') (Some (js ''R1'')),
         ToolCallPart (js ''2'') (js ''search'') (JObject []) (js ''{}'') None],
      currentTextIndex = - 1, toolCallsIndex = 1\<rparr> =
   Break
     \<lparr>contentParts =
        [ToolCallPart (js ''1'') (js ''search'') (JObject []) (js ''{}'') (Some (js ''R2'')),
         ToolCallPart (js ''2'') (js ''search'') (JObject []) (js ''{}'') None],
      currentTextIndex = - 1, toolCallsIndex = 1\<rparr> \<and>
   spec_set_first_unresolved (js ''search'') (js ''R2'')
     [ToolCallPart (js ''1'') (js ''search'') (JObject []) (js ''{}'') (Some (js ''R1'')),
      ToolCallPart (js ''2'') (js ''search'') (JObject []) (js ''{}'') None] =
     [ToolCallPart (js ''1'') (js ''search'') (JObject []) (js ''{}'') (Some (js ''R1'')),
      ToolCallPart (js ''2'') (js ''search'') (JObject []) (js ''{}'') (Some (js ''R2''))]"
proof -
  have a: "run (Response True 200 (js ''OK'')
     (Some [Chunk (js ''data: {\"type\":\"tool_calls\",\"tool_calls\":[{\"id\":\"1\",\"function\":{\"name\":\"search\",\"arguments\":\"{}\"}}]}\<newline>data: {\"type\":\"tool_result\",\"tool_name\":\"search\",\"result\":\"R1\"}\<newline>data: {\"type\":\"tool_calls\",\"tool_calls\":[{\"id\":\"2\",\"function\":{\"name\":\"search\",\"arguments\":\"{}\"}}]}\<newline>data: {\"type\":\"tool_result\",\"tool_name\":\"search\",\"result\":\"R2\"}\<newline>'')])) =
   Some ([[ToolCallPart (js ''1'') (js ''search'') (JObject []) (js ''{}'') None],
          [ToolCallPart (js ''1'') (js ''search'') (JObject []) (js ''{}'') (Some (js ''R1''))],
          [ToolCallPart (js ''1'') (js ''search'') (JObject []) (js ''{}'') (Some (js ''R1'')),
           ToolCallPart (js ''2'') (js ''search'') (JObject []) (js ''{}'') None],
          [ToolCallPart (js ''1'') (js ''search'') (JObject []) (js ''{}'') (Some (js ''R2'')),
           ToolCallPart (js ''2'') (js ''search'') (JObject []) (js ''{}'') None],
          [ToolCallPart (js ''1'') (js ''search'') (JObject []) (js ''{}'') (Some (js ''R2'')),
           ToolCallPart (js ''2'') (js ''search'') (JObject []) (js ''{}'') None]],
         Completed)"
    by (simp add: run_eval assembler_eval decoder_eval)
  have b: "handle_message
     ((bare_message T_tool_result)\<lparr>msg_tool_name := Some (js ''search''), msg_result := Some (js ''R2'')\<rparr>)
     \<lparr>contentParts =
        [ToolCallPart (js ''1'') (js ''search'') (JObject []) (js ''{}'') (Some (js ''R1'')),
         ToolCallPart (js ''2'') (js ''search'') (JObject []) (js ''{}'') None],
      currentTextIndex = - 1, toolCallsIndex = 1\<rparr> =
   Break
     \<lparr>contentParts =
        [ToolCallPart (js ''1'') (js ''search'') (JObject []) (js ''{}'') (Some (js ''R2'')),
         ToolCallPart (js ''2'') (js ''search'') (JObject []) (js ''{}'') None],
      currentTextIndex = - 1, toolCallsIndex = 1\<rparr>"
    by (simp add: bare_message_def present_def is_call_named_def with_result_def js_def)
  have c: "spec_set_first_unresolved (js ''search'') (js ''R2'')
     [ToolCallPart (js ''1'') (js ''search'') (JObject []) (js ''{}'') (Some (js ''R1'')),
      ToolCallPart (js ''2'') (js ''search'') (JObject []) (js ''{}'') None] =
     [ToolCallPart (js ''1'') (js ''search'') (JObject []) (js ''{}'') (Some (js ''R1'')),
      ToolCallPart (js ''2'') (js ''search'') (JObject []) (js ''{}'') (Some (js ''R2''))]"
    by (simp add: is_unresolved_call_def with_result_def)
  from a b c show ?thesis by blast
qed

text \<open>
  C10. A tool-result message whose tool name is absent or empty, whose result is absent or
  empty, or whose tool name is the name of no tool-call part, leaves the whole state as
  it is, and the switch is left normally: nothing is thrown.
\<close>

theorem unmatched_tool_result_absorbed:
  assumes "msg_type m = T_tool_result"
    and "\<not> present (msg_tool_name m) \<or> \<not> present (msg_result m) \<or>
         (\<forall>p \<in> set (contentParts st). \<not> is_call_named (the (msg_tool_name m)) p)"
  shows "handle_message m st = Break st"
  using assms by (auto simp add: set_first_result_none)

theorem unmatched_tool_result_absorbed_witness:
  "handle_message
     ((bare_message T_tool_result)\<lparr>msg_tool_name := Some (js ''fetch''), msg_result := Some (js ''R'')\<rparr>)
     \<lparr>contentParts =
        [TextPart (js ''hi''), ToolCallPart (js ''1'') (js ''search'') (JObject []) (js ''{}'') None],
      currentTextIndex = 0, toolCallsIndex = 1\<rparr> =
   Break
     \<lparr>contentParts =
        [TextPart (js ''hi''), ToolCallPart (js ''1'') (js ''search'') (JObject []) (js ''{}'') None],
      currentTextIndex = 0, toolCallsIndex = 1\<rparr> \<and>
   handle_message
     ((bare_message T_tool_result)\<lparr>msg_tool_name := Some (js ''search''), msg_result := Some []\<rparr>)
     \<lparr>contentParts =
        [TextPart (js ''hi''), ToolCallPart (js ''1'') (js ''search'') (JObject []) (js ''{}'') None],
      currentTextIndex = 0, toolCallsIndex = 1\<rparr> =
   Break
     \<lparr>contentParts =
        [TextPart (js ''hi''), ToolCallPart (js ''1'') (js ''search'') (JObject []) (js ''{}'') None],
      currentTextIndex = 0, toolCallsIndex = 1\<rparr>"
proof -
  let ?st = "\<lparr>contentParts =
        [TextPart (js ''hi''), ToolCallPart (js ''1'') (js ''search'') (JObject []) (js ''{}'') None],
      currentTextIndex = 0, toolCallsIndex = 1\<rparr>"
  let ?m1 = "(bare_message T_tool_result)\<lparr>msg_tool_name := Some (js ''fetch''), msg_result := Some (js ''R'')\<rparr>"
  let ?m2 = "(bare_message T_tool_result)\<lparr>msg_tool_name := Some (js ''search''), msg_result := Some []\<rparr>"
  have t1: "msg_type ?m1 = T_tool_result" and t2: "msg_type ?m2 = T_tool_result"
    by (simp_all add: bare_message_def)
  have h1: "\<not> present (msg_tool_name ?m1) \<or> \<not> present (msg_result ?m1) \<or>
         (\<forall>p \<in> set (contentParts ?st). \<not> is_call_named (the (msg_tool_name ?m1)) p)"
    by (simp add: bare_message_def is_call_named_def js_def)
  have h2: "\<not> present (msg_tool_name ?m2) \<or> \<not> present (msg_result ?m2) \<or>
         (\<forall>p \<in> set (contentParts ?st). \<not> is_call_named (the (msg_tool_name ?m2)) p)"
    by (simp add: bare_message_def present_def)
  from unmatched_tool_result_absorbed [OF t1 h1] unmatched_tool_result_absorbed [OF t2 h2] show ?thesis by simp
qed

section \<open>Tool calls\<close>

lemma JSON_parse_empty_object: "JSON_parse (js ''{}'') = Some (JObject [])"
  by (simp add: decoder_eval)

lemma push_tool_calls_all_parse:
  "\<forall>tc \<in> set tcs. JSON_parse (arguments_text tc) \<noteq> None \<Longrightarrow>
   push_tool_calls tcs ps =
     (ps @ map (\<lambda>tc. tool_call_part tc (the (JSON_parse (arguments_text tc)))) tcs, True)"
  by (induction tcs arbitrary: ps) auto

lemma push_tool_calls_extends:
  "\<exists>ext. fst (push_tool_calls tcs ps) = ps @ ext"
proof (induction tcs arbitrary: ps)
  case Nil
  show ?case by simp
next
  case (Cons tc tcs)
  show ?case
  proof (cases "JSON_parse (arguments_text tc)")
    case None
    then show ?thesis by simp
  next
    case (Some a)
    from Cons [of "ps @ [tool_call_part tc a]"] obtain ext
      where "fst (push_tool_calls tcs (ps @ [tool_call_part tc a])) = (ps @ [tool_call_part tc a]) @ ext"
      by blast
    with Some show ?thesis by simp
  qed
qed

lemma push_tool_calls_first_failure:
  "\<forall>x \<in> set pre. JSON_parse (arguments_text x) \<noteq> None \<Longrightarrow>
   JSON_parse (arguments_text tc) = None \<Longrightarrow>
   push_tool_calls (pre @ tc # post) ps =
     (ps @ map (\<lambda>x. tool_call_part x (the (JSON_parse (arguments_text x)))) pre, False)"
  by (induction pre arbitrary: ps) auto

text \<open>
  C4 (as amended). For every tool-calls message with a batch that is not empty, no failure
  reaches the caller: the loop goes on with the next line. The text that is parsed for
  an announcement is \<^verbatim>\<open>{}\<close>, which parses to the empty object, when the announcement's
  arguments are absent or empty, and the announcement's arguments otherwise. When the
  text of every announcement parses, each announcement is appended in order as a
  tool-call part with the parsed value as its \<^verbatim>\<open>args\<close>, and the text index is reset, so
  that later content opens a new text part. When the text of some announcement does not
  parse, it is not replaced by the empty object: the announcements before the first such
  one are appended and no other, the text index is not reset, and no snapshot is yielded.
\<close>

theorem tool_calls_appended_when_arguments_parse:
  assumes "msg_type m = T_tool_calls" and "msg_tool_calls m = Some tcs" and "tcs \<noteq> []"
  shows "(\<exists>ys st'. process_message m st = (ys, Next st')) \<and>
         (\<forall>tc \<in> set tcs. \<not> present (tc_arguments tc) \<longrightarrow>
             arguments_text tc = js ''{}'' \<and>
             JSON_parse (arguments_text tc) = Some (JObject [])) \<and>
         (\<forall>tc \<in> set tcs. present (tc_arguments tc) \<longrightarrow>
             arguments_text tc = the (tc_arguments tc)) \<and>
         ((\<forall>tc \<in> set tcs. JSON_parse (arguments_text tc) \<noteq> None) \<longrightarrow>
            handle_message m st =
              Break (st\<lparr>toolCallsIndex := int (length (contentParts st)),
                        contentParts := contentParts st @
                          map (\<lambda>tc. tool_call_part tc (the (JSON_parse (arguments_text tc)))) tcs,
                        currentTextIndex := - 1\<rparr>)) \<and>
         (\<forall>pre tc post.
            tcs = pre @ tc # post \<and>
            (\<forall>x \<in> set pre. JSON_parse (arguments_text x) \<noteq> None) \<and>
            JSON_parse (arguments_text tc) = None \<longrightarrow>
            handle_message m st =
              Throw ArgumentsSyntaxError
                (st\<lparr>toolCallsIndex := int (length (contentParts st)),
                    contentParts := contentParts st @
                      map (\<lambda>x. tool_call_part x (the (JSON_parse (arguments_text x)))) pre\<rparr>) \<and>
            process_message m st =
              ([], Next (st\<lparr>toolCallsIndex := int (length (contentParts st)),
                           contentParts := contentParts st @
                             map (\<lambda>x. tool_call_part x (the (JSON_parse (arguments_text x)))) pre\<rparr>)))"
proof -
  have a: "\<exists>ys st'. process_message m st = (ys, Next st')"
    using assms
    by (cases "push_tool_calls tcs (contentParts st)")
       (auto simp add: process_message_def on_tool_calls_def Let_def split: bool.splits)
  have b: "\<forall>tc \<in> set tcs. \<not> present (tc_arguments tc) \<longrightarrow>
             arguments_text tc = js ''{}'' \<and>
             JSON_parse (arguments_text tc) = Some (JObject [])"
    by (simp add: arguments_text_def JSON_parse_empty_object)
  have c: "\<forall>tc \<in> set tcs. present (tc_arguments tc) \<longrightarrow>
             arguments_text tc = the (tc_arguments tc)"
    by (simp add: arguments_text_def)
  have d: "(\<forall>tc \<in> set tcs. JSON_parse (arguments_text tc) \<noteq> None) \<longrightarrow>
            handle_message m st =
              Break (st\<lparr>toolCallsIndex := int (length (contentParts st)),
                        contentParts := contentParts st @
                          map (\<lambda>tc. tool_call_part tc (the (JSON_parse (arguments_text tc)))) tcs,
                        currentTextIndex := - 1\<rparr>)"
    using assms by (auto simp add: on_tool_calls_def Let_def push_tool_calls_all_parse)
  have e: "\<forall>pre tc post.
            tcs = pre @ tc # post \<and>
            (\<forall>x \<in> set pre. JSON_parse (arguments_text x) \<noteq> None) \<and>
            JSON_parse (arguments_text tc) = None \<longrightarrow>
            handle_message m st =
              Throw ArgumentsSyntaxError
                (st\<lparr>toolCallsIndex := int (length (contentParts st)),
                    contentParts := contentParts st @
                      map (\<lambda>x. tool_call_part x (the (JSON_parse (arguments_text x)))) pre\<rparr>) \<and>
            process_message m st =
              ([], Next (st\<lparr>toolCallsIndex := int (length (contentParts st)),
                           contentParts := contentParts st @
                             map (\<lambda>x. tool_call_part x (the (JSON_parse (arguments_text x)))) pre\<rparr>))"
  proof (intro allI impI)
    fix pre tc post
    assume h: "tcs = pre @ tc # post \<and>
            (\<forall>x \<in> set pre. JSON_parse (arguments_text x) \<noteq> None) \<and>
            JSON_parse (arguments_text tc) = None"
    then have p: "push_tool_calls tcs (contentParts st) =
        (contentParts st @ map (\<lambda>x. tool_call_part x (the (JSON_parse (arguments_text x)))) pre,
         False)"
      using push_tool_calls_first_failure [of pre tc post "contentParts st"] by simp
    have hm: "handle_message m st =
              Throw ArgumentsSyntaxError
                (st\<lparr>toolCallsIndex := int (length (contentParts st)),
                    contentParts := contentParts st @
                      map (\<lambda>x. tool_call_part x (the (JSON_parse (arguments_text x)))) pre\<rparr>)"
      using assms p by (simp add: on_tool_calls_def Let_def)
    then have "process_message m st =
              ([], Next (st\<lparr>toolCallsIndex := int (length (contentParts st)),
                           contentParts := contentParts st @
                             map (\<lambda>x. tool_call_part x (the (JSON_parse (arguments_text x)))) pre\<rparr>))"
      unfolding process_message_def by (simp del: handle_message.simps)
    with hm show "handle_message m st =
              Throw ArgumentsSyntaxError
                (st\<lparr>toolCallsIndex := int (length (contentParts st)),
                    contentParts := contentParts st @
                      map (\<lambda>x. tool_call_part x (the (JSON_parse (arguments_text x)))) pre\<rparr>) \<and>
            process_message m st =
              ([], Next (st\<lparr>toolCallsIndex := int (length (contentParts st)),
                           contentParts := contentParts st @
                             map (\<lambda>x. tool_call_part x (the (JSON_parse (arguments_text x)))) pre\<rparr>))"
      by blast
  qed
  from a b c d e show ?thesis by blast
qed

theorem tool_calls_appended_when_arguments_parse_witness:
  "handle_message
     ((bare_message T_tool_calls)\<lparr>msg_tool_calls :=
        Some [\<lparr>tc_id = js ''1'', tc_name = js ''x'', tc_arguments = Some (js ''{\"q\":1}'')\<rparr>,
              \<lparr>tc_id = js ''2'', tc_name = js ''y'', tc_arguments = None\<rparr>]\<rparr>)
     \<lparr>contentParts = [TextPart (js ''A'')], currentTextIndex = 0, toolCallsIndex = - 1\<rparr> =
   Break
     \<lparr>contentParts =
        [TextPart (js ''A''),
         ToolCallPart (js ''1'') (js ''x'') (JObject [(js ''q'', JNumber 1 0)]) (js ''{\"q\":1}'') None,
         ToolCallPart (js ''2'') (js ''y'') (JObject []) (js ''{}'') None],
      currentTextIndex = - 1, toolCallsIndex = 1\<rparr> \<and>
   process_message
     ((bare_message T_tool_calls)\<lparr>msg_tool_calls :=
        Some [\<lparr>tc_id = js ''1'', tc_name = js ''x'', tc_arguments = Some (js ''{}'')\<rparr>,
              \<lparr>tc_id = js ''2'', tc_name = js ''y'', tc_arguments = Some (js ''{oops'')\<rparr>,
              \<lparr>tc_id = js ''3'', tc_name = js ''z'', tc_arguments = Some (js ''{}'')\<rparr>]\<rparr>)
     \<lparr>contentParts = [TextPart (js ''A'')], currentTextIndex = 0, toolCallsIndex = - 1\<rparr> =
   ([], Next
     \<lparr>contentParts =
        [TextPart (js ''A''), ToolCallPart (js ''1'') (js ''x'') (JObject []) (js ''{}'') None],
      currentTextIndex = 0, toolCallsIndex = 1\<rparr>)"
proof -
  let ?tcs = "[\<lparr>tc_id = js ''1'', tc_name = js ''x'', tc_arguments = Some (js ''{\"q\":1}'')\<rparr>,
              \<lparr>tc_id = js ''2'', tc_name = js ''y'', tc_arguments = None\<rparr>]"
  let ?m = "(bare_message T_tool_calls)\<lparr>msg_tool_calls := Some ?tcs\<rparr>"
  let ?st = "\<lparr>contentParts = [TextPart (js ''A'')], currentTextIndex = 0, toolCallsIndex = - 1\<rparr>"
  let ?g = "\<lparr>tc_id = js ''1'', tc_name = js ''x'', tc_arguments = Some (js ''{}'')\<rparr>"
  let ?b = "\<lparr>tc_id = js ''2'', tc_name = js ''y'', tc_arguments = Some (js ''{oops'')\<rparr>"
  let ?z = "\<lparr>tc_id = js ''3'', tc_name = js ''z'', tc_arguments = Some (js ''{}'')\<rparr>"
  let ?m2 = "(bare_message T_tool_calls)\<lparr>msg_tool_calls := Some [?g, ?b, ?z]\<rparr>"
  have t: "msg_type ?m = T_tool_calls" by (simp add: bare_message_def)
  have c: "msg_tool_calls ?m = Some ?tcs" by (simp add: bare_message_def)
  have n: "?tcs \<noteq> []" by simp
  have p1: "JSON_parse (js ''{\"q\":1}'') = Some (JObject [(js ''q'', JNumber 1 0)])"
    by (simp add: decoder_eval)
  have p2: "JSON_parse (js ''{}'') = Some (JObject [])"
    by (simp add: decoder_eval)
  have p3: "JSON_parse (js ''{oops'') = None"
    by (simp add: decoder_eval)
  have q: "js ''{\"q\":1}'' \<noteq> []" "js ''{}'' \<noteq> []" "js ''{oops'' \<noteq> []"
    by (simp_all add: js_def)
  have h: "\<forall>tc \<in> set ?tcs. JSON_parse (arguments_text tc) \<noteq> None"
    using p1 p2 q by (simp add: arguments_text_def present_def)
  from tool_calls_appended_when_arguments_parse [OF t c n, of ?st] h
  have "handle_message ?m ?st =
      Break (?st\<lparr>toolCallsIndex := int (length (contentParts ?st)),
                contentParts := contentParts ?st @
                  map (\<lambda>tc. tool_call_part tc (the (JSON_parse (arguments_text tc)))) ?tcs,
                currentTextIndex := - 1\<rparr>)"
    by blast
  then have first: "handle_message ?m ?st =
     Break
     \<lparr>contentParts =
        [TextPart (js ''A''),
         ToolCallPart (js ''1'') (js ''x'') (JObject [(js ''q'', JNumber 1 0)]) (js ''{\"q\":1}'') None,
         ToolCallPart (js ''2'') (js ''y'') (JObject []) (js ''{}'') None],
      currentTextIndex = - 1, toolCallsIndex = 1\<rparr>"
    using p1 p2 q by (simp add: arguments_text_def present_def tool_call_part_def)
  have t2: "msg_type ?m2 = T_tool_calls" by (simp add: bare_message_def)
  have c2: "msg_tool_calls ?m2 = Some [?g, ?b, ?z]" by (simp add: bare_message_def)
  have n2: "[?g, ?b, ?z] \<noteq> []" by simp
  have k: "[?g, ?b, ?z] = [?g] @ ?b # [?z] \<and>
      (\<forall>x \<in> set [?g]. JSON_parse (arguments_text x) \<noteq> None) \<and>
      JSON_parse (arguments_text ?b) = None"
    using p2 p3 q by (simp add: arguments_text_def present_def)
  from tool_calls_appended_when_arguments_parse [OF t2 c2 n2, of ?st] k
  have "process_message ?m2 ?st =
      ([], Next (?st\<lparr>toolCallsIndex := int (length (contentParts ?st)),
                   contentParts := contentParts ?st @
                     map (\<lambda>x. tool_call_part x (the (JSON_parse (arguments_text x)))) [?g]\<rparr>))"
    by blast
  then have second: "process_message ?m2 ?st =
     ([], Next
       \<lparr>contentParts =
          [TextPart (js ''A''), ToolCallPart (js ''1'') (js ''x'') (JObject []) (js ''{}'') None],
        currentTextIndex = 0, toolCallsIndex = 1\<rparr>)"
    using p2 q by (simp add: arguments_text_def present_def tool_call_part_def)
  from first second show ?thesis by blast
qed

text \<open>
  C4 as stated fails. Arguments that do not parse are not replaced by the empty object:
  \<^verbatim>\<open>JSON.parse\<close> throws, the announcement and the ones after it are not appended, and the
  text index is not reset. And an empty batch does not reset the text index.
\<close>

theorem unparseable_arguments_abort_batch:
  "JSON_parse (js ''{oops'') = None \<and>
   handle_message
     ((bare_message T_tool_calls)\<lparr>msg_tool_calls :=
        Some [\<lparr>tc_id = js ''1'', tc_name = js ''x'', tc_arguments = Some (js ''{}'')\<rparr>,
              \<lparr>tc_id = js ''2'', tc_name = js ''y'', tc_arguments = Some (js ''{oops'')\<rparr>,
              \<lparr>tc_id = js ''3'', tc_name = js ''z'', tc_arguments = Some (js ''{}'')\<rparr>]\<rparr>)
     \<lparr>contentParts = [TextPart (js ''A'')], currentTextIndex = 0, toolCallsIndex = - 1\<rparr> =
   Throw ArgumentsSyntaxError
     \<lparr>contentParts =
        [TextPart (js ''A''), ToolCallPart (js ''1'') (js ''x'') (JObject []) (js ''{}'') None],
      currentTextIndex = 0, toolCallsIndex = 1\<rparr> \<and>
   handle_message ((bare_message T_tool_calls)\<lparr>msg_tool_calls := Some []\<rparr>)
     \<lparr>contentParts = [TextPart (js ''A'')], currentTextIndex = 0, toolCallsIndex = - 1\<rparr> =
   Break \<lparr>contentParts = [TextPart (js ''A'')], currentTextIndex = 0, toolCallsIndex = - 1\<rparr>"
proof -
  have p1: "JSON_parse (js ''{oops'') = None"
    by (simp add: decoder_eval)
  have p2: "JSON_parse (js ''{}'') = Some (JObject [])"
    by (simp add: decoder_eval)
  have q: "js ''{oops'' \<noteq> []" "js ''{}'' \<noteq> []" by (simp_all add: js_def)
  show ?thesis
    using p1 p2 q
    by (simp add: bare_message_def on_tool_calls_def arguments_text_def present_def
        tool_call_part_def)
qed

section \<open>Tool errors\<close>

text \<open>
  C3 (as amended). A tool-error message whose error text is present and not empty appends
  one new text part after the existing parts, all of which stay as they are; its text is
  the warning sign, \<^verbatim>\<open> Tool Error: \<close>, the error text and two line feeds. When the text
  index was unset, as it is after a tool-calls batch, content that follows opens a new
  text part after the notice. A tool-error message whose error text is absent or empty
  changes nothing.
\<close>

theorem tool_error_appends_notice:
  assumes "msg_type m = T_tool_error"
  shows "(present (msg_error m) \<longrightarrow>
            (\<exists>st'. handle_message m st = Break st' \<and>
               contentParts st' = contentParts st @ [TextPart (tool_error_text (the (msg_error m)))] \<and>
               tool_error_text (the (msg_error m)) =
                 [9888, 65039] @ js '' Tool Error: '' @ the (msg_error m) @ [10, 10] \<and>
               (currentTextIndex st = - 1 \<longrightarrow>
                  (\<forall>c t. msg_type c = T_content \<and> msg_text c = Some t \<and> t \<noteq> [] \<longrightarrow>
                     (\<exists>st''. handle_message c st' = Break st'' \<and>
                        contentParts st'' =
                          contentParts st @
                            [TextPart (tool_error_text (the (msg_error m))), TextPart t]))))) \<and>
         (\<not> present (msg_error m) \<longrightarrow> handle_message m st = Break st)"
proof -
  let ?n = "TextPart (tool_error_text (the (msg_error m)))"
  let ?st' = "st\<lparr>contentParts := contentParts st @ [?n]\<rparr>"
  have a: "present (msg_error m) \<longrightarrow> handle_message m st = Break ?st'"
    using assms by simp
  have b: "currentTextIndex st = - 1 \<longrightarrow>
      (\<forall>c t. msg_type c = T_content \<and> msg_text c = Some t \<and> t \<noteq> [] \<longrightarrow>
         (\<exists>st''. handle_message c ?st' = Break st'' \<and>
            contentParts st'' = contentParts st @ [?n, TextPart t]))"
    by (simp add: present_def on_content_def no_open_text_def)
  have c: "\<not> present (msg_error m) \<longrightarrow> handle_message m st = Break st"
    using assms by simp
  have d: "tool_error_text (the (msg_error m)) =
      [9888, 65039] @ js '' Tool Error: '' @ the (msg_error m) @ [10, 10]"
    by (simp add: tool_error_text_def)
  have e: "contentParts ?st' = contentParts st @ [?n]" by simp
  from a b c d e show ?thesis by blast
qed

theorem tool_error_appends_notice_witness:
  "(\<exists>st'. handle_message ((bare_message T_tool_error)\<lparr>msg_error := Some (js ''boom'')\<rparr>)
            \<lparr>contentParts = [ToolCallPart (js ''1'') (js ''x'') (JObject []) (js ''{}'') None],
             currentTextIndex = - 1, toolCallsIndex = 0\<rparr>
          = Break st' \<and>
          contentParts st' =
            [ToolCallPart (js ''1'') (js ''x'') (JObject []) (js ''{}'') None,
             TextPart ([9888, 65039] @ js '' Tool Error: boom'' @ [10, 10])] \<and>
          (\<exists>st''. handle_message ((bare_message T_content)\<lparr>msg_text := Some (js ''B'')\<rparr>) st'
                   = Break st'' \<and>
                 contentParts st'' =
                   [ToolCallPart (js ''1'') (js ''x'') (JObject []) (js ''{}'') None,
                    TextPart ([9888, 65039] @ js '' Tool Error: boom'' @ [10, 10]),
                    TextPart (js ''B'')])) \<and>
   handle_message (bare_message T_tool_error)
      \<lparr>contentParts = [TextPart (js ''A'')], currentTextIndex = 0, toolCallsIndex = - 1\<rparr>
    = Break \<lparr>contentParts = [TextPart (js ''A'')], currentTextIndex = 0, toolCallsIndex = - 1\<rparr>"
proof -
  let ?call = "ToolCallPart (js ''1'') (js ''x'') (JObject []) (js ''{}'') None"
  let ?st = "\<lparr>contentParts = [?call], currentTextIndex = - 1, toolCallsIndex = 0\<rparr>"
  let ?st2 = "\<lparr>contentParts = [TextPart (js ''A'')], currentTextIndex = 0, toolCallsIndex = - 1\<rparr>"
  let ?m1 = "(bare_message T_tool_error)\<lparr>msg_error := Some (js ''boom'')\<rparr>"
  let ?m2 = "bare_message T_tool_error"
  let ?c = "(bare_message T_content)\<lparr>msg_text := Some (js ''B'')\<rparr>"
  have t1: "msg_type ?m1 = T_tool_error" and t2: "msg_type ?m2 = T_tool_error"
    by (simp_all add: bare_message_def)
  have p1: "present (msg_error ?m1)" by (simp add: bare_message_def present_def js_def)
  have p2: "\<not> present (msg_error ?m2)" by (simp add: bare_message_def present_def)
  have e: "the (msg_error ?m1) = js ''boom''" by (simp add: bare_message_def)
  have i: "currentTextIndex ?st = - 1" by simp
  have c: "msg_type ?c = T_content \<and> msg_text ?c = Some (js ''B'') \<and> js ''B'' \<noteq> []"
    by (simp add: bare_message_def js_def)
  from tool_error_appends_notice [OF t1, of ?st] p1
  obtain st' where r: "handle_message ?m1 ?st = Break st'"
    and ps: "contentParts st' = contentParts ?st @ [TextPart (tool_error_text (the (msg_error ?m1)))]"
    and tx: "tool_error_text (the (msg_error ?m1)) =
                 [9888, 65039] @ js '' Tool Error: '' @ the (msg_error ?m1) @ [10, 10]"
    and nx: "currentTextIndex ?st = - 1 \<longrightarrow>
                  (\<forall>c t. msg_type c = T_content \<and> msg_text c = Some t \<and> t \<noteq> [] \<longrightarrow>
                     (\<exists>st''. handle_message c st' = Break st'' \<and>
                        contentParts st'' =
                          contentParts ?st @
                            [TextPart (tool_error_text (the (msg_error ?m1))), TextPart t]))"
    by blast
  from nx i c obtain st'' where r2: "handle_message ?c st' = Break st''"
    and ps2: "contentParts st'' = contentParts ?st @
                [TextPart (tool_error_text (the (msg_error ?m1))), TextPart (js ''B'')]"
    by blast
  have n: "tool_error_text (the (msg_error ?m1)) = [9888, 65039] @ js '' Tool Error: boom'' @ [10, 10]"
    using tx by (simp add: e js_def)
  from ps n have ps': "contentParts st' = [?call, TextPart ([9888, 65039] @ js '' Tool Error: boom'' @ [10, 10])]"
    by simp
  from ps2 n have ps2': "contentParts st'' =
      [?call, TextPart ([9888, 65039] @ js '' Tool Error: boom'' @ [10, 10]), TextPart (js ''B'')]"
    by simp
  from tool_error_appends_notice [OF t2, of ?st2] p2 have b: "handle_message ?m2 ?st2 = Break ?st2" by blast
  from r ps' r2 ps2' b show ?thesis by blast
qed

text \<open>
  C3 as stated fails. The notice does not become the open text part: content that arrives
  after it goes to a new text part when no text part was open, and to the text part that
  was open before, ahead of the notice, otherwise. And a tool error with an empty error
  text appends nothing.
\<close>

theorem content_after_tool_error_joins_earlier_text:
  "process_messages
     [(bare_message T_tool_error)\<lparr>msg_error := Some (js ''boom'')\<rparr>,
      (bare_message T_content)\<lparr>msg_text := Some (js ''B'')\<rparr>] initial_state =
   ([[TextPart ([9888, 65039] @ js '' Tool Error: boom'' @ [10, 10])],
     [TextPart ([9888, 65039] @ js '' Tool Error: boom'' @ [10, 10]), TextPart (js ''B'')]],
    Next \<lparr>contentParts =
            [TextPart ([9888, 65039] @ js '' Tool Error: boom'' @ [10, 10]), TextPart (js ''B'')],
          currentTextIndex = 1, toolCallsIndex = - 1\<rparr>) \<and>
   process_messages
     [(bare_message T_content)\<lparr>msg_text := Some (js ''A'')\<rparr>,
      (bare_message T_tool_error)\<lparr>msg_error := Some (js ''boom'')\<rparr>,
      (bare_message T_content)\<lparr>msg_text := Some (js ''B'')\<rparr>] initial_state =
   ([[TextPart (js ''A'')],
     [TextPart (js ''A''), TextPart ([9888, 65039] @ js '' Tool Error: boom'' @ [10, 10])],
     [TextPart (js ''AB''), TextPart ([9888, 65039] @ js '' Tool Error: boom'' @ [10, 10])]],
    Next \<lparr>contentParts =
            [TextPart (js ''AB''), TextPart ([9888, 65039] @ js '' Tool Error: boom'' @ [10, 10])],
          currentTextIndex = 0, toolCallsIndex = - 1\<rparr>) \<and>
   handle_message ((bare_message T_tool_error)\<lparr>msg_error := Some []\<rparr>) initial_state =
     Break initial_state"
  by (simp add: bare_message_def assembler_eval js_def)

section \<open>Content\<close>

lemma hello_world_parts:
  "process_messages
     [(bare_message T_content)\<lparr>msg_text := Some (js ''Hello '')\<rparr>,
      (bare_message T_content)\<lparr>msg_text := Some (js ''world'')\<rparr>] initial_state =
   ([[TextPart (js ''Hello '')], [TextPart (js ''Hello world'')]],
    Next \<lparr>contentParts = [TextPart (js ''Hello world'')], currentTextIndex = 0,
           toolCallsIndex = - 1\<rparr>)"
  by (simp add: bare_message_def assembler_eval js_def)

text \<open>
  C7 (as amended). A content message whose text is absent or empty changes nothing. For
  every content message whose text is not empty: when there is no open text part, a new
  text part with the text is appended and the index is set to it; otherwise the text is
  concatenated, with nothing in between, onto the text of the part at the index. After a
  tool-calls batch that is not empty and whose arguments all parse, there is no open text
  part, so content opens a new one. The two deltas \<^verbatim>\<open>Hello \<close> and \<^verbatim>\<open>world\<close> give one text
  part \<^verbatim>\<open>Hello world\<close>.
\<close>

theorem content_delta_opens_or_appends:
  "(msg_type m = T_content \<and> \<not> present (msg_text m) \<longrightarrow> handle_message m st = Break st) \<and>
   (msg_type m = T_content \<and> msg_text m = Some t \<and> t \<noteq> [] \<longrightarrow>
      (no_open_text st \<longrightarrow>
         handle_message m st =
           Break (st\<lparr>currentTextIndex := int (length (contentParts st)),
                     contentParts := contentParts st @ [TextPart t]\<rparr>)) \<and>
      (\<not> no_open_text st \<longrightarrow>
         (\<exists>old. part_at (contentParts st) (currentTextIndex st) = Some (TextPart old) \<and>
            handle_message m st =
              Break (st\<lparr>contentParts :=
                       (contentParts st)[nat (currentTextIndex st) := TextPart (old @ t)]\<rparr>))) \<and>
      (\<forall>c tcs. msg_type c = T_tool_calls \<and> msg_tool_calls c = Some tcs \<and> tcs \<noteq> [] \<and>
           (\<forall>tc \<in> set tcs. JSON_parse (arguments_text tc) \<noteq> None) \<longrightarrow>
           (\<exists>st1. handle_message c st = Break st1 \<and>
              handle_message m st1 =
                Break (st1\<lparr>currentTextIndex := int (length (contentParts st1)),
                          contentParts := contentParts st1 @ [TextPart t]\<rparr>)))) \<and>
   process_messages
     [(bare_message T_content)\<lparr>msg_text := Some (js ''Hello '')\<rparr>,
      (bare_message T_content)\<lparr>msg_text := Some (js ''world'')\<rparr>] initial_state =
   ([[TextPart (js ''Hello '')], [TextPart (js ''Hello world'')]],
    Next \<lparr>contentParts = [TextPart (js ''Hello world'')], currentTextIndex = 0,
           toolCallsIndex = - 1\<rparr>)"
proof -
  have z: "msg_type m = T_content \<and> \<not> present (msg_text m) \<longrightarrow> handle_message m st = Break st"
    by simp
  have new: "\<And>s. msg_type m = T_content \<and> msg_text m = Some t \<and> t \<noteq> [] \<Longrightarrow> no_open_text s \<Longrightarrow>
         handle_message m s =
           Break (s\<lparr>currentTextIndex := int (length (contentParts s)),
                     contentParts := contentParts s @ [TextPart t]\<rparr>)"
    by (simp add: present_def on_content_def)
  have b: "msg_type m = T_content \<and> msg_text m = Some t \<and> t \<noteq> [] \<longrightarrow> \<not> no_open_text st \<longrightarrow>
            (\<exists>old. part_at (contentParts st) (currentTextIndex st) = Some (TextPart old) \<and>
               handle_message m st =
                 Break (st\<lparr>contentParts :=
                          (contentParts st)[nat (currentTextIndex st) := TextPart (old @ t)]\<rparr>))"
    by (auto simp add: present_def on_content_def no_open_text_def is_text_def
        split: ContentPart.splits option.splits)
  have c: "msg_type m = T_content \<and> msg_text m = Some t \<and> t \<noteq> [] \<longrightarrow>
      (\<forall>c tcs. msg_type c = T_tool_calls \<and> msg_tool_calls c = Some tcs \<and> tcs \<noteq> [] \<and>
           (\<forall>tc \<in> set tcs. JSON_parse (arguments_text tc) \<noteq> None) \<longrightarrow>
           (\<exists>st1. handle_message c st = Break st1 \<and>
              handle_message m st1 =
                Break (st1\<lparr>currentTextIndex := int (length (contentParts st1)),
                          contentParts := contentParts st1 @ [TextPart t]\<rparr>)))"
  proof (intro allI impI)
    fix c :: SSEMessage and tcs
    assume hm: "msg_type m = T_content \<and> msg_text m = Some t \<and> t \<noteq> []"
    assume hc: "msg_type c = T_tool_calls \<and> msg_tool_calls c = Some tcs \<and> tcs \<noteq> [] \<and>
           (\<forall>tc \<in> set tcs. JSON_parse (arguments_text tc) \<noteq> None)"
    let ?st1 = "st\<lparr>toolCallsIndex := int (length (contentParts st)),
                  contentParts := contentParts st @
                    map (\<lambda>tc. tool_call_part tc (the (JSON_parse (arguments_text tc)))) tcs,
                  currentTextIndex := - 1\<rparr>"
    from hc have r: "handle_message c st = Break ?st1"
      by (auto simp add: on_tool_calls_def Let_def push_tool_calls_all_parse)
    have "no_open_text ?st1" by (simp add: no_open_text_def)
    with hm have "handle_message m ?st1 =
           Break (?st1\<lparr>currentTextIndex := int (length (contentParts ?st1)),
                     contentParts := contentParts ?st1 @ [TextPart t]\<rparr>)"
      by (rule new)
    with r show "\<exists>st1. handle_message c st = Break st1 \<and>
              handle_message m st1 =
                Break (st1\<lparr>currentTextIndex := int (length (contentParts st1)),
                          contentParts := contentParts st1 @ [TextPart t]\<rparr>)"
      by blast
  qed
  from z new [of st] b c hello_world_parts show ?thesis by blast
qed

theorem content_delta_opens_or_appends_witness:
  "handle_message ((bare_message T_content)\<lparr>msg_text := Some []\<rparr>)
     \<lparr>contentParts = [ToolCallPart (js ''1'') (js ''x'') (JObject []) (js ''{}'') None],
      currentTextIndex = - 1, toolCallsIndex = 0\<rparr> =
     Break \<lparr>contentParts = [ToolCallPart (js ''1'') (js ''x'') (JObject []) (js ''{}'') None],
            currentTextIndex = - 1, toolCallsIndex = 0\<rparr> \<and>
   handle_message ((bare_message T_content)\<lparr>msg_text := Some (js ''Hello '')\<rparr>) initial_state =
     Break \<lparr>contentParts = [TextPart (js ''Hello '')], currentTextIndex = 0, toolCallsIndex = - 1\<rparr> \<and>
   handle_message ((bare_message T_content)\<lparr>msg_text := Some (js ''world'')\<rparr>)
     \<lparr>contentParts = [TextPart (js ''Hello '')], currentTextIndex = 0, toolCallsIndex = - 1\<rparr> =
     Break \<lparr>contentParts = [TextPart (js ''Hello world'')], currentTextIndex = 0,
            toolCallsIndex = - 1\<rparr> \<and>
   (\<exists>st1. handle_message
            ((bare_message T_tool_calls)\<lparr>msg_tool_calls :=
               Some [\<lparr>tc_id = js ''1'', tc_name = js ''x'', tc_arguments = Some (js ''{}'')\<rparr>]\<rparr>)
            \<lparr>contentParts = [TextPart (js ''A'')], currentTextIndex = 0, toolCallsIndex = - 1\<rparr> =
          Break st1 \<and>
          handle_message ((bare_message T_content)\<lparr>msg_text := Some (js ''B'')\<rparr>) st1 =
          Break \<lparr>contentParts =
                   [TextPart (js ''A''),
                    ToolCallPart (js ''1'') (js ''x'') (JObject []) (js ''{}'') None,
                    TextPart (js ''B'')],
                 currentTextIndex = 2, toolCallsIndex = 1\<rparr>)"
proof -
  let ?empty = "(bare_message T_content)\<lparr>msg_text := Some []\<rparr>"
  let ?hello = "(bare_message T_content)\<lparr>msg_text := Some (js ''Hello '')\<rparr>"
  let ?world = "(bare_message T_content)\<lparr>msg_text := Some (js ''world'')\<rparr>"
  let ?b = "(bare_message T_content)\<lparr>msg_text := Some (js ''B'')\<rparr>"
  let ?part = "ToolCallPart (js ''1'') (js ''x'') (JObject []) (js ''{}'') None"
  let ?st0 = "\<lparr>contentParts = [?part], currentTextIndex = - 1, toolCallsIndex = 0\<rparr>"
  let ?st1 = "\<lparr>contentParts = [TextPart (js ''Hello '')], currentTextIndex = 0, toolCallsIndex = - 1\<rparr>"
  let ?call = "\<lparr>tc_id = js ''1'', tc_name = js ''x'', tc_arguments = Some (js ''{}'')\<rparr>"
  let ?calls = "(bare_message T_tool_calls)\<lparr>msg_tool_calls := Some [?call]\<rparr>"
  let ?st2 = "\<lparr>contentParts = [TextPart (js ''A'')], currentTextIndex = 0, toolCallsIndex = - 1\<rparr>"
  let ?st3 = "\<lparr>contentParts = [TextPart (js ''A''), ?part], currentTextIndex = - 1, toolCallsIndex = 1\<rparr>"
  have ne: "js ''Hello '' \<noteq> []" "js ''world'' \<noteq> []" "js ''B'' \<noteq> []" "js ''{}'' \<noteq> []"
    by (simp_all add: js_def)
  have e: "msg_type ?empty = T_content \<and> \<not> present (msg_text ?empty)"
    by (simp add: bare_message_def present_def)
  have h: "msg_type ?hello = T_content \<and> msg_text ?hello = Some (js ''Hello '') \<and> js ''Hello '' \<noteq> []"
    using ne by (simp add: bare_message_def)
  have w: "msg_type ?world = T_content \<and> msg_text ?world = Some (js ''world'') \<and> js ''world'' \<noteq> []"
    using ne by (simp add: bare_message_def)
  have bb: "msg_type ?b = T_content \<and> msg_text ?b = Some (js ''B'') \<and> js ''B'' \<noteq> []"
    using ne by (simp add: bare_message_def)
  have o1: "no_open_text initial_state"
    by (simp add: no_open_text_def initial_state_def)
  have o2: "\<not> no_open_text ?st1"
    by (simp add: no_open_text_def part_at_def is_text_def)
  have p: "JSON_parse (js ''{}'') = Some (JObject [])"
    by (simp add: decoder_eval)
  have calls: "msg_type ?calls = T_tool_calls \<and> msg_tool_calls ?calls = Some [?call] \<and>
      [?call] \<noteq> [] \<and> (\<forall>tc \<in> set [?call]. JSON_parse (arguments_text tc) \<noteq> None)"
    using p ne by (simp add: bare_message_def arguments_text_def present_def)
  have run_calls: "handle_message ?calls ?st2 = Break ?st3"
    using p ne by (simp add: bare_message_def on_tool_calls_def arguments_text_def present_def
        tool_call_part_def)
  from content_delta_opens_or_appends [where m = ?empty and st = ?st0] e
  have a0: "handle_message ?empty ?st0 = Break ?st0" by blast
  from content_delta_opens_or_appends [where m = ?hello and t = "js ''Hello ''" and st = initial_state] h o1
  have "handle_message ?hello initial_state =
      Break (initial_state\<lparr>currentTextIndex := int (length (contentParts initial_state)),
               contentParts := contentParts initial_state @ [TextPart (js ''Hello '')]\<rparr>)"
    by blast
  then have a1: "handle_message ?hello initial_state = Break ?st1"
    by (simp add: initial_state_def)
  from content_delta_opens_or_appends [where m = ?world and t = "js ''world''" and st = ?st1] w o2
  obtain old where old: "part_at (contentParts ?st1) (currentTextIndex ?st1) = Some (TextPart old)"
    and r: "handle_message ?world ?st1 =
       Break (?st1\<lparr>contentParts := (contentParts ?st1)[nat (currentTextIndex ?st1) := TextPart (old @ js ''world'')]\<rparr>)"
    by blast
  from old have "old = js ''Hello ''" by (simp add: part_at_def)
  with r have a2: "handle_message ?world ?st1 =
     Break \<lparr>contentParts = [TextPart (js ''Hello world'')], currentTextIndex = 0,
            toolCallsIndex = - 1\<rparr>"
    by (simp add: js_def)
  from content_delta_opens_or_appends [where m = ?b and t = "js ''B''" and st = ?st2] bb calls
  obtain st1 where s1: "handle_message ?calls ?st2 = Break st1"
    and s2: "handle_message ?b st1 =
                Break (st1\<lparr>currentTextIndex := int (length (contentParts st1)),
                          contentParts := contentParts st1 @ [TextPart (js ''B'')]\<rparr>)"
    by blast
  from s1 run_calls have "st1 = ?st3" by simp
  with s1 s2 have a3: "\<exists>st1. handle_message ?calls ?st2 = Break st1 \<and>
      handle_message ?b st1 =
          Break \<lparr>contentParts = [TextPart (js ''A''), ?part, TextPart (js ''B'')],
                 currentTextIndex = 2, toolCallsIndex = 1\<rparr>"
    by simp
  from a0 a1 a2 a3 show ?thesis by blast
qed

text \<open>
  C7 as stated fails. A content message with the empty text, arriving when there is no
  open text part, appends no text part and opens none. And after a batch whose arguments
  do not parse the text index is not reset: content that follows is appended to the text
  part that was open before the batch.
\<close>

theorem empty_content_delta_ignored:
  "no_open_text initial_state \<and>
   handle_message ((bare_message T_content)\<lparr>msg_text := Some []\<rparr>) initial_state =
     Break initial_state \<and>
   contentParts initial_state = [] \<and>
   JSON_parse (js ''{oops'') = None \<and>
   process_messages
     [(bare_message T_content)\<lparr>msg_text := Some (js ''A'')\<rparr>,
      (bare_message T_tool_calls)\<lparr>msg_tool_calls :=
         Some [\<lparr>tc_id = js ''1'', tc_name = js ''x'', tc_arguments = Some (js ''{oops'')\<rparr>]\<rparr>,
      (bare_message T_content)\<lparr>msg_text := Some (js ''B'')\<rparr>] initial_state =
   ([[TextPart (js ''A'')], [TextPart (js ''AB'')]],
    Next \<lparr>contentParts = [TextPart (js ''AB'')], currentTextIndex = 0, toolCallsIndex = 1\<rparr>)"
proof -
  have p: "JSON_parse (js ''{oops'') = None"
    by (simp add: decoder_eval)
  have q: "js ''{oops'' \<noteq> []" by (simp add: js_def)
  have a: "no_open_text initial_state \<and>
   handle_message ((bare_message T_content)\<lparr>msg_text := Some []\<rparr>) initial_state =
     Break initial_state \<and>
   contentParts initial_state = []"
    by (simp add: bare_message_def assembler_eval)
  have b: "process_messages
     [(bare_message T_content)\<lparr>msg_text := Some (js ''A'')\<rparr>,
      (bare_message T_tool_calls)\<lparr>msg_tool_calls :=
         Some [\<lparr>tc_id = js ''1'', tc_name = js ''x'', tc_arguments = Some (js ''{oops'')\<rparr>]\<rparr>,
      (bare_message T_content)\<lparr>msg_text := Some (js ''B'')\<rparr>] initial_state =
   ([[TextPart (js ''A'')], [TextPart (js ''AB'')]],
    Next \<lparr>contentParts = [TextPart (js ''AB'')], currentTextIndex = 0, toolCallsIndex = 1\<rparr>)"
    using p q
    by (simp add: bare_message_def process_message_def on_content_def no_open_text_def is_text_def
        part_at_def present_def on_tool_calls_def arguments_text_def initial_state_def js_def)
  from a b p show ?thesis by blast
qed

section \<open>Snapshots\<close>

text \<open>
  C5 (as amended). After every message other than an error or a done message, and other
  than a tool-calls message with arguments that do not parse, the switch is left
  normally and a snapshot of the parts is yielded exactly when there is at least one
  part; while there is none, nothing is yielded.
\<close>

theorem snapshot_yielded_iff_parts_nonempty:
  assumes "msg_type m \<noteq> T_error" and "msg_type m \<noteq> T_done"
    and "msg_type m = T_tool_calls \<longrightarrow>
           (\<forall>tcs. msg_tool_calls m = Some tcs \<longrightarrow>
              (\<forall>tc \<in> set tcs. JSON_parse (arguments_text tc) \<noteq> None))"
  shows "\<exists>st'. handle_message m st = Break st' \<and>
           process_message m st =
             (if contentParts st' = [] then [] else [contentParts st'], Next st')"
proof (cases "msg_type m")
  case T_tool_calls
  show ?thesis
  proof (cases "msg_tool_calls m")
    case None
    with T_tool_calls show ?thesis by (simp add: process_message_def)
  next
    case (Some tcs)
    with assms T_tool_calls have "\<forall>tc \<in> set tcs. JSON_parse (arguments_text tc) \<noteq> None"
      by blast
    with T_tool_calls Some show ?thesis
      by (simp add: process_message_def on_tool_calls_def Let_def push_tool_calls_all_parse)
  qed
qed (use assms in \<open>simp_all add: process_message_def\<close>)

theorem snapshot_yielded_iff_parts_nonempty_witness:
  "process_message (bare_message T_thinking)
     \<lparr>contentParts = [TextPart (js ''A'')], currentTextIndex = 0, toolCallsIndex = - 1\<rparr> =
   ([[TextPart (js ''A'')]],
    Next \<lparr>contentParts = [TextPart (js ''A'')], currentTextIndex = 0, toolCallsIndex = - 1\<rparr>) \<and>
   process_message
     ((bare_message T_tool_calls)\<lparr>msg_tool_calls :=
        Some [\<lparr>tc_id = js ''1'', tc_name = js ''x'', tc_arguments = Some (js ''{}'')\<rparr>]\<rparr>)
     initial_state =
   ([[ToolCallPart (js ''1'') (js ''x'') (JObject []) (js ''{}'') None]],
    Next \<lparr>contentParts = [ToolCallPart (js ''1'') (js ''x'') (JObject []) (js ''{}'') None],
          currentTextIndex = - 1, toolCallsIndex = 0\<rparr>)"
proof -
  let ?m = "bare_message T_thinking"
  let ?st = "\<lparr>contentParts = [TextPart (js ''A'')], currentTextIndex = 0, toolCallsIndex = - 1\<rparr>"
  let ?tc = "\<lparr>tc_id = js ''1'', tc_name = js ''x'', tc_arguments = Some (js ''{}'')\<rparr>"
  let ?c = "(bare_message T_tool_calls)\<lparr>msg_tool_calls := Some [?tc]\<rparr>"
  have h1: "msg_type ?m \<noteq> T_error" and h2: "msg_type ?m \<noteq> T_done"
    and h3: "msg_type ?m = T_tool_calls \<longrightarrow>
           (\<forall>tcs. msg_tool_calls ?m = Some tcs \<longrightarrow>
              (\<forall>tc \<in> set tcs. JSON_parse (arguments_text tc) \<noteq> None))"
    by (simp_all add: bare_message_def)
  from snapshot_yielded_iff_parts_nonempty [OF h1 h2 h3, of ?st]
  obtain st' where a: "handle_message ?m ?st = Break st'"
    and b: "process_message ?m ?st = (if contentParts st' = [] then [] else [contentParts st'], Next st')"
    by blast
  from a have "st' = ?st" by (simp add: bare_message_def)
  with b have first: "process_message ?m ?st = ([[TextPart (js ''A'')]], Next ?st)" by simp
  have p: "JSON_parse (js ''{}'') = Some (JObject [])"
    by (simp add: decoder_eval)
  have q: "js ''{}'' \<noteq> []" by (simp add: js_def)
  have k1: "msg_type ?c \<noteq> T_error" and k2: "msg_type ?c \<noteq> T_done"
    by (simp_all add: bare_message_def)
  have k3: "msg_type ?c = T_tool_calls \<longrightarrow>
           (\<forall>tcs. msg_tool_calls ?c = Some tcs \<longrightarrow>
              (\<forall>tc \<in> set tcs. JSON_parse (arguments_text tc) \<noteq> None))"
    using p q by (simp add: bare_message_def arguments_text_def present_def)
  from snapshot_yielded_iff_parts_nonempty [OF k1 k2 k3, of initial_state]
  obtain st2 where c: "handle_message ?c initial_state = Break st2"
    and d: "process_message ?c initial_state =
        (if contentParts st2 = [] then [] else [contentParts st2], Next st2)"
    by blast
  from c p q have "st2 = \<lparr>contentParts = [ToolCallPart (js ''1'') (js ''x'') (JObject []) (js ''{}'') None],
          currentTextIndex = - 1, toolCallsIndex = 0\<rparr>"
    by (simp add: bare_message_def on_tool_calls_def arguments_text_def present_def
        tool_call_part_def initial_state_def)
  with d have second: "process_message ?c initial_state =
   ([[ToolCallPart (js ''1'') (js ''x'') (JObject []) (js ''{}'') None]],
    Next \<lparr>contentParts = [ToolCallPart (js ''1'') (js ''x'') (JObject []) (js ''{}'') None],
          currentTextIndex = - 1, toolCallsIndex = 0\<rparr>)"
    by simp
  from first second show ?thesis by blast
qed

text \<open>
  C5 as stated fails: a thinking message or a tool-start message that arrives before any
  part exists is followed by no snapshot.
\<close>

theorem no_snapshot_before_first_part:
  "process_message (bare_message T_thinking) initial_state = ([], Next initial_state) \<and>
   process_message (bare_message T_tool_start) initial_state = ([], Next initial_state)"
  by (simp add: bare_message_def assembler_eval)

section \<open>Stream errors\<close>

text \<open>
  C1. The code does not do what the claim says. The error thrown for an error message is
  caught by the \<^verbatim>\<open>catch\<close> inside the loop: on a stream with an error line followed by a
  content line, \<^verbatim>\<open>run\<close> goes on to the content line, yields its snapshot and the final one,
  and completes without raising.
\<close>

theorem stream_error_is_absorbed:
  "run (Response True 200 (js ''OK'')
     (Some [Chunk (js ''data: {\"type\":\"error\",\"error\":\"x\"}\<newline>data: {\"type\":\"content\",\"text\":\"A\"}\<newline>'')])) =
     Some ([[TextPart (js ''A'')], [TextPart (js ''A'')]], Completed) \<and>
   process_messages
     [(bare_message T_error)\<lparr>msg_error := Some (js ''x'')\<rparr>,
      (bare_message T_content)\<lparr>msg_text := Some (js ''A'')\<rparr>] initial_state =
   ([[TextPart (js ''A'')]],
    Next \<lparr>contentParts = [TextPart (js ''A'')], currentTextIndex = 0, toolCallsIndex = - 1\<rparr>)"
proof -
  have a: "run (Response True 200 (js ''OK'')
     (Some [Chunk (js ''data: {\"type\":\"error\",\"error\":\"x\"}\<newline>data: {\"type\":\"content\",\"text\":\"A\"}\<newline>'')])) =
     Some ([[TextPart (js ''A'')], [TextPart (js ''A'')]], Completed)"
    by (simp add: run_eval assembler_eval decoder_eval)
  have b: "process_messages
     [(bare_message T_error)\<lparr>msg_error := Some (js ''x'')\<rparr>,
      (bare_message T_content)\<lparr>msg_text := Some (js ''A'')\<rparr>] initial_state =
   ([[TextPart (js ''A'')]],
    Next \<lparr>contentParts = [TextPart (js ''A'')], currentTextIndex = 0, toolCallsIndex = - 1\<rparr>)"
    by (simp add: bare_message_def assembler_eval js_def)
  from a b show ?thesis by simp
qed

section \<open>A whole turn\<close>

text \<open>The scenario of the specification: a tool call, its result, the end of the stream.\<close>

lemma end_to_end_scenario:
  "process_messages
     [(bare_message T_tool_calls)\<lparr>msg_tool_calls :=
        Some [\<lparr>tc_id = js ''1'', tc_name = js ''web_search'',
               tc_arguments = Some (js ''{\"query\":\"cats\"}'')\<rparr>]\<rparr>,
      (bare_message T_tool_result)\<lparr>msg_tool_name := Some (js ''web_search''),
        msg_result := Some (js ''1. **Cats** \<newline>URL: http://x\<newline>Cats are great'')\<rparr>,
      bare_message T_done] initial_state =
   ([[ToolCallPart (js ''1'') (js ''web_search'') (JObject [(js ''query'', JString (js ''cats''))])
        (js ''{\"query\":\"cats\"}'') None],
     [ToolCallPart (js ''1'') (js ''web_search'') (JObject [(js ''query'', JString (js ''cats''))])
        (js ''{\"query\":\"cats\"}'')
        (Some (js ''1. **Cats** \<newline>URL: http://x\<newline>Cats are great''))]],
    Stop)"
proof -
  have p: "JSON_parse (js ''{\"query\":\"cats\"}'') = Some (JObject [(js ''query'', JString (js ''cats''))])"
    by (simp add: decoder_eval)
  have q: "js ''{\"query\":\"cats\"}'' \<noteq> []" "js ''web_search'' \<noteq> []"
    "js ''1. **Cats** \<newline>URL: http://x\<newline>Cats are great'' \<noteq> []"
    by (simp_all add: js_def)
  show ?thesis
    using p q
    by (simp add: bare_message_def process_message_def on_tool_calls_def arguments_text_def
        present_def tool_call_part_def is_call_named_def with_result_def initial_state_def)
qed

section \<open>The text index\<close>

lemma part_at_append:
  "part_at ps i = Some p \<Longrightarrow> part_at (ps @ ext) i = Some p"
  by (auto simp add: part_at_def nth_append split: if_splits)

lemma part_at_set_first_result:
  "part_at ps i = Some (TextPart t) \<Longrightarrow> part_at (set_first_result n r ps) i = Some (TextPart t)"
  by (auto simp add: part_at_def set_first_result_length set_first_result_nth is_call_named_def
      split: if_splits)

lemma open_text_iff:
  "\<not> no_open_text st \<longleftrightarrow>
     currentTextIndex st \<noteq> - 1 \<and>
     (\<exists>t. part_at (contentParts st) (currentTextIndex st) = Some (TextPart t))"
  by (auto simp add: no_open_text_def is_text_def split: ContentPart.splits)

text \<open>From the initial state on, the index is unset or points at a text part: the two
  other conditions that \<open>no_open_text\<close> tests never hold on their own.\<close>

lemma handle_message_index_ok:
  assumes "index_ok st"
    and "handle_message m st = Break st' \<or> handle_message m st = Throw e st'"
  shows "index_ok st'"
proof (cases "msg_type m")
  case T_content
  show ?thesis
  proof (cases "present (msg_text m)")
    case False
    with T_content assms show ?thesis by auto
  next
    case True
    with T_content assms(2) have st': "st' = on_content (the (msg_text m)) st" by auto
    show ?thesis
    proof (cases "no_open_text st")
      case True
      with st' show ?thesis
        by (simp add: index_ok_def open_text_iff on_content_def part_at_def)
    next
      case False
      then obtain t where "currentTextIndex st \<noteq> - 1"
        and "part_at (contentParts st) (currentTextIndex st) = Some (TextPart t)"
        by (auto simp add: open_text_iff)
      with False st' show ?thesis
        by (auto simp add: index_ok_def open_text_iff on_content_def part_at_def split: if_splits)
    qed
  qed
next
  case T_tool_calls
  show ?thesis
  proof (cases "msg_tool_calls m")
    case None
    with T_tool_calls assms show ?thesis by auto
  next
    case (Some tcs)
    show ?thesis
    proof (cases "tcs = []")
      case True
      with Some T_tool_calls assms show ?thesis by auto
    next
      case False
      obtain ext where ext: "fst (push_tool_calls tcs (contentParts st)) = contentParts st @ ext"
        using push_tool_calls_extends by blast
      obtain ps b where pb: "push_tool_calls tcs (contentParts st) = (ps, b)"
        by (cases "push_tool_calls tcs (contentParts st)")
      with ext have ps: "ps = contentParts st @ ext" by simp
      show ?thesis
      proof (cases b)
        case True
        with pb Some False T_tool_calls assms(2) show ?thesis
          by (auto simp add: on_tool_calls_def Let_def index_ok_def)
      next
        case b: False
        with pb Some False T_tool_calls assms(2)
        have st': "st' = st\<lparr>toolCallsIndex := int (length (contentParts st)), contentParts := ps\<rparr>"
          by (auto simp add: on_tool_calls_def Let_def)
        from assms(1) show ?thesis
          unfolding st' ps index_ok_def open_text_iff
          by (auto simp add: part_at_append)
      qed
    qed
  qed
next
  case T_tool_result
  with assms(2) have "st' = st \<or>
      st' = st\<lparr>contentParts := set_first_result (the (msg_tool_name m)) (the (msg_result m)) (contentParts st)\<rparr>"
    by (auto split: if_splits)
  with assms(1) show ?thesis
    unfolding index_ok_def open_text_iff
    by (auto simp add: part_at_set_first_result)
next
  case T_tool_error
  with assms(2) have "st' = st \<or>
      st' = st\<lparr>contentParts := contentParts st @ [TextPart (tool_error_text (the (msg_error m)))]\<rparr>"
    by (auto split: if_splits)
  with assms(1) show ?thesis
    unfolding index_ok_def open_text_iff
    by (auto simp add: part_at_append)
qed (use assms in auto)

lemma process_messages_index_ok:
  "index_ok st \<Longrightarrow> process_messages ms st = (ys, Next st') \<Longrightarrow> index_ok st'"
proof (induction ms arbitrary: st ys)
  case Nil
  then show ?case by simp
next
  case (Cons m ms)
  show ?case
  proof (cases "handle_message m st")
    case (Break st1)
    with Cons.prems(1) have ok: "index_ok st1"
      using handle_message_index_ok [of st m st1] by blast
    from Break Cons.prems(2) obtain ys1 where "process_messages ms st1 = (ys1, Next st')"
      by (auto simp add: process_message_def split: prod.splits)
    with ok show ?thesis by (rule Cons.IH)
  next
    case (Throw e st1)
    with Cons.prems(1) have ok: "index_ok st1"
      using handle_message_index_ok [of st m st1 e] by blast
    from Throw Cons.prems(2) obtain ys1 where "process_messages ms st1 = (ys1, Next st')"
      by (auto simp add: process_message_def split: prod.splits)
    with ok show ?thesis by (rule Cons.IH)
  next
    case Return
    with Cons.prems(2) show ?thesis
      by (simp add: process_message_def)
  qed
qed

lemma initial_state_index_ok: "index_ok initial_state"
  by (simp add: index_ok_def initial_state_def)

end
